theory Spec2Isabelle
  imports Main "HOL-Library.Word" "HOL-Library.Sublist"
begin

unbundle bit_operations_syntax

section \<open>JavaScript values used by the front end\<close>

subsection \<open>Strings\<close>

text \<open>
  A JavaScript string is a sequence of 16-bit code units; \<open>length\<close>, \<open>slice\<close>,
  \<open>charCodeAt\<close>, \<open>split\<close>, \<open>startsWith\<close> and the regular expressions of the source
  (none has the \<open>u\<close> flag) all count code units.  ASCII literals of the source are
  written \<open>js ''...''\<close>; the Korean literals are given by their code units.
\<close>

type_synonym jschar = "16 word"
type_synonym jsstring = "jschar list"

definition js :: "string \<Rightarrow> jsstring" where
  "js s = map of_char s"

abbreviation NL :: jschar where "NL \<equiv> 0x0A"
abbreviation STAR :: jschar where "STAR \<equiv> 0x2A"

text \<open>WhiteSpace and LineTerminator of ECMAScript: what \<open>trim\<close> strips and \<open>\s\<close> matches.\<close>

definition is_space :: "jschar \<Rightarrow> bool" where
  "is_space c \<longleftrightarrow>
     c \<in> set [0x09, 0x0A, 0x0B, 0x0C, 0x0D, 0x20, 0xA0, 0x1680, 0x2000, 0x2001, 0x2002,
              0x2003, 0x2004, 0x2005, 0x2006, 0x2007, 0x2008, 0x2009, 0x200A, 0x2028,
              0x2029, 0x202F, 0x205F, 0x3000, 0xFEFF]"

text \<open>LineTerminator: what \<open>.\<close> does not match in a regular expression without the \<open>s\<close> flag.\<close>

definition is_line_terminator :: "jschar \<Rightarrow> bool" where
  "is_line_terminator c \<longleftrightarrow> c \<in> set [0x0A, 0x0D, 0x2028, 0x2029]"

definition trim :: "jsstring \<Rightarrow> jsstring" where
  "trim s = rev (dropWhile is_space (rev (dropWhile is_space s)))"

text \<open>\<open>cons_first c pieces\<close> puts \<open>c\<close> in front of the first piece.\<close>

fun cons_first :: "'a \<Rightarrow> 'a list list \<Rightarrow> 'a list list" where
  "cons_first c [] = [[c]]"
| "cons_first c (r # rs) = (c # r) # rs"

text \<open>
  \<open>String.prototype.split(sep)\<close> for a string separator: the pieces between the leftmost,
  non-overlapping occurrences of \<open>sep\<close>; an empty separator splits into code units.
\<close>

fun js_split :: "jsstring \<Rightarrow> jsstring \<Rightarrow> jsstring list" where
  "js_split sep [] = (if sep = [] then [] else [[]])"
| "js_split sep (c # cs) =
     (if sep = [] then map (\<lambda>x. [x]) (c # cs)
      else if prefix sep (c # cs) then [] # js_split sep (drop (length sep - 1) cs)
      else cons_first c (js_split sep cs))"

subsection \<open>Values decoded from JSON\<close>

text \<open>
  The result of \<open>JSON.parse\<close>.  A number is kept by what the source can observe of it:
  \<open>JNum z t\<close> is a number that is zero exactly when \<open>z\<close> holds and whose \<open>ToString\<close> is
  \<open>t\<close> (the source applies no arithmetic and no comparison to a decoded number).  An
  object keeps its members in source order; a later member with the same key wins, as in
  \<open>JSON.parse\<close>.
\<close>

datatype json =
    JNull
  | JBool bool
  | JNum bool jsstring
  | JStr jsstring
  | JArr "json list"
  | JObj "(jsstring \<times> json) list"

text \<open>What a \<open>throw\<close> carries: an \<open>Error\<close> object with its message, or any other value.\<close>

datatype thrown = ErrorObj jsstring | NonError

text \<open>
  The message of the \<open>TypeError\<close> raised by reading a property of \<open>null\<close> or
  \<open>undefined\<close> (the wording is the engine's; here the one of V8).
\<close>

definition type_error :: "string \<Rightarrow> string \<Rightarrow> thrown" where
  "type_error base prop =
     ErrorObj (js (''Cannot read properties of '' @ base @ '' (reading '' @ [CHR 0x27] @ prop
                   @ [CHR 0x27] @ '')''))"

text \<open>
  Property read \<open>v.k\<close> on a value that is not \<open>null\<close>: \<open>None\<close> is \<open>undefined\<close>.  The
  property names the source reads (\<open>text\<close>, \<open>error\<close>, \<open>detail\<close>, \<open>main_topic\<close>,
  \<open>script\<close>, \<open>title\<close>, \<open>article_id\<close>, \<open>user_id\<close>) exist on no primitive and on no
  array.
\<close>

fun js_get :: "json \<Rightarrow> string \<Rightarrow> json option" where
  "js_get (JObj kvs) k = map_of (rev kvs) (js k)"
| "js_get _ k = None"

fun truthy :: "json \<Rightarrow> bool" where
  "truthy JNull = False"
| "truthy (JBool b) = b"
| "truthy (JNum z t) = (\<not> z)"
| "truthy (JStr s) = (s \<noteq> [])"
| "truthy (JArr _) = True"
| "truthy (JObj _) = True"

text \<open>\<open>v || d\<close> where \<open>v\<close> may be \<open>undefined\<close>.\<close>

fun js_or :: "json option \<Rightarrow> json \<Rightarrow> json" where
  "js_or None d = d"
| "js_or (Some v) d = (if truthy v then v else d)"

section \<open>The stream demultiplexer (\<open>lib/api.ts\<close>)\<close>

text \<open>
  \<open>StreamEvent\<close>, as the generators build it: \<open>Thinking v\<close> is
  \<open>{type: "thinking", data: v}\<close>, \<open>Error v\<close> is \<open>{type: "error", data: {error: v}}\<close>.
\<close>

datatype stream_event = Thinking json | Content json | Done json | Error json

text \<open>
  What a generator produces: a yielded event, the \<open>console.warn\<close> diagnostic of the
  \<open>catch\<close> around \<open>JSON.parse\<close> (with the tag of the generator and the data line), or,
  at its end, the exception that leaves it.
\<close>

datatype warn_tag = SSE | SSE_Script

datatype emitted = Yield stream_event | Warn warn_tag jsstring | Threw thrown

text \<open>
  The \<open>for (const line of lines)\<close> loop, from \<open>eventType = "content"\<close> and
  \<open>eventData = ""\<close>: the last event line and the last data line win.
\<close>

definition line_step :: "jsstring \<Rightarrow> jsstring \<times> jsstring \<Rightarrow> jsstring \<times> jsstring" where
  "line_step line st =
     (if prefix (js ''event: '') line then (drop 7 line, snd st)
      else if prefix (js ''data: '') line then (fst st, drop 6 line)
      else st)"

definition block_fields :: "jsstring \<Rightarrow> jsstring \<times> jsstring" where
  "block_fields eventText = fold line_step (js_split [NL] eventText) (js ''content'', [])"

definition unknown_error :: jsstring where
  "unknown_error = [0xC54C, 0x20, 0xC218, 0x20, 0xC5C6, 0xB294, 0x20, 0xC624, 0xB958]"

text \<open>
  The body of \<open>for (const eventText of events)\<close>.  \<open>JSON.parse\<close> is the platform's and
  is a parameter: \<open>None\<close> when it throws.  Reading \<open>parsed.text\<close> or \<open>parsed.error\<close>
  of \<open>null\<close> throws inside the same \<open>try\<close> and ends in the same diagnostic.
\<close>

definition process_event :: "(jsstring \<Rightarrow> json option) \<Rightarrow> warn_tag \<Rightarrow> jsstring \<Rightarrow> emitted list" where
  "process_event parse tag eventText =
     (if trim eventText = [] then []
      else
        let eventType = fst (block_fields eventText);
            eventData = snd (block_fields eventText)
        in if eventData = [] then []
           else (case parse eventData of
                   None \<Rightarrow> [Warn tag eventData]
                 | Some parsed \<Rightarrow>
                     if eventType = js ''thinking'' \<or> eventType = js ''content'' then
                       (if parsed = JNull then [Warn tag eventData]
                        else [Yield ((if eventType = js ''thinking'' then Thinking else Content)
                                       (js_or (js_get parsed ''text'') (JStr [])))])
                     else if eventType = js ''done'' then [Yield (Done parsed)]
                     else if eventType = js ''error'' then
                       (if parsed = JNull then [Warn tag eventData]
                        else [Yield (Error (js_or (js_get parsed ''error'') (JStr unknown_error)))])
                     else []))"

text \<open>
  The \<open>while (true)\<close> loop over \<open>reader.read()\<close>: the list holds the decoded chunks up to
  end-of-input (\<open>TextDecoder\<close> with \<open>stream: true\<close> makes the decoded pieces concatenate to
  the decoded whole).  At end-of-input the loop breaks and the rest of the buffer is left.
\<close>

fun read_loop :: "(jsstring \<Rightarrow> json option) \<Rightarrow> warn_tag \<Rightarrow> jsstring \<Rightarrow> jsstring list \<Rightarrow> emitted list" where
  "read_loop parse tag buffer [] = []"
| "read_loop parse tag buffer (v # rest) =
     (let events = js_split [NL, NL] (buffer @ v)
      in concat (map (process_event parse tag) (butlast events))
         @ read_loop parse tag (if events = [] then [] else last events) rest)"

text \<open>
  What the network gives a generator: \<open>fetch\<close> rejects; or the response is not \<open>ok\<close>,
  with what \<open>response.json()\<close> gives (rejected, or the decoded error body); or it is
  \<open>ok\<close> without body; or it is \<open>ok\<close> with a body, read as a list of chunks up to
  end-of-input (\<open>None\<close>) or up to the rejection of a \<open>read\<close>.
\<close>

datatype fetched =
    FetchRejected thrown
  | NotOk "thrown + json"
  | NoBody
  | Body "jsstring list" "thrown option"

definition summarize_failed :: jsstring where
  "summarize_failed =
     [0xC694, 0xC57D, 0xC5D0, 0x20, 0xC2E4, 0xD328, 0xD588, 0xC2B5, 0xB2C8, 0xB2E4, 0x2E]"

definition script_failed :: jsstring where
  "script_failed =
     [0xC2A4, 0xD06C, 0xB9BD, 0xD2B8, 0x20, 0xC0DD, 0xC131, 0xC5D0, 0x20, 0xC2E4, 0xD328,
      0xD588, 0xC2B5, 0xB2C8, 0xB2E4, 0x2E]"

definition no_stream_body :: jsstring where
  "no_stream_body =
     [0xC2A4, 0xD2B8, 0xB9AC, 0xBC0D, 0x20, 0xC751, 0xB2F5, 0xC744, 0x20, 0xBC1B, 0xC744,
      0x20, 0xC218, 0x20, 0xC5C6, 0xC2B5, 0xB2C8, 0xB2E4, 0x2E]"

text \<open>
  The body shared by the two generators, which differ in the endpoint, in the text used
  when the error body has no \<open>detail\<close>, and in the tag of the diagnostic.  What is thrown
  outside the inner \<open>try\<close> leaves the generator.
\<close>

definition stream_of :: "(jsstring \<Rightarrow> json option) \<Rightarrow> warn_tag \<Rightarrow> jsstring \<Rightarrow> fetched \<Rightarrow> emitted list" where
  "stream_of parse tag failed f =
     (case f of
        FetchRejected e \<Rightarrow> [Threw e]
      | NotOk r \<Rightarrow>
          (case r of
             Inl e \<Rightarrow> [Threw e]
           | Inr err \<Rightarrow>
               if err = JNull then [Threw (type_error ''null'' ''detail'')]
               else [Yield (Error (js_or (js_get err ''detail'') (JStr failed)))])
      | NoBody \<Rightarrow> [Yield (Error (JStr no_stream_body))]
      | Body chunks ending \<Rightarrow>
          read_loop parse tag [] chunks @ (case ending of None \<Rightarrow> [] | Some e \<Rightarrow> [Threw e]))"

definition summarizeStream :: "(jsstring \<Rightarrow> json option) \<Rightarrow> fetched \<Rightarrow> emitted list" where
  "summarizeStream parse f = stream_of parse SSE summarize_failed f"

definition generateScriptStream :: "(jsstring \<Rightarrow> json option) \<Rightarrow> fetched \<Rightarrow> emitted list" where
  "generateScriptStream parse f = stream_of parse SSE_Script script_failed f"

text \<open>The events a consumer of the generator receives, in order.\<close>

fun yielded :: "emitted list \<Rightarrow> stream_event list" where
  "yielded [] = []"
| "yielded (Yield e # os) = e # yielded os"
| "yielded (Warn t d # os) = yielded os"
| "yielded (Threw e # os) = yielded os"

subsection \<open>The stream format, in the words of the specification\<close>

text \<open>
  A block is a text with no blank line inside that does not end in a newline; in the
  stream each block is followed by the blank-line delimiter.
\<close>

fun blank_free :: "jsstring \<Rightarrow> bool" where
  "blank_free [] = True"
| "blank_free [c] = (c \<noteq> NL)"
| "blank_free (c # d # r) = (\<not> (c = NL \<and> d = NL) \<and> blank_free (d # r))"

definition delimited :: "jsstring list \<Rightarrow> jsstring" where
  "delimited bs = concat (map (\<lambda>b. b @ [NL, NL]) bs)"

text \<open>A block with an explicit event-type line and a data line.\<close>

definition sse_block :: "jsstring \<times> jsstring \<Rightarrow> jsstring" where
  "sse_block b = js ''event: '' @ fst b @ [NL] @ js ''data: '' @ snd b"

text \<open>
  A valid block: one of the four event types and a non-empty one-line payload that
  decodes; the payload of a \<open>thinking\<close>, \<open>content\<close> or \<open>error\<close> block is not \<open>null\<close>.
\<close>

definition valid_block :: "(jsstring \<Rightarrow> json option) \<Rightarrow> jsstring \<times> jsstring \<Rightarrow> bool" where
  "valid_block parse b \<longleftrightarrow>
     fst b \<in> set [js ''thinking'', js ''content'', js ''done'', js ''error'']
     \<and> snd b \<noteq> [] \<and> NL \<notin> set (snd b)
     \<and> (case parse (snd b) of None \<Rightarrow> False | Some j \<Rightarrow> fst b = js ''done'' \<or> j \<noteq> JNull)"

text \<open>The event a valid block stands for.\<close>

definition event_of :: "(jsstring \<Rightarrow> json option) \<Rightarrow> jsstring \<times> jsstring \<Rightarrow> stream_event" where
  "event_of parse b =
     (case parse (snd b) of
        None \<Rightarrow> Done JNull
      | Some j \<Rightarrow>
          if fst b = js ''thinking'' then Thinking (js_or (js_get j ''text'') (JStr []))
          else if fst b = js ''content'' then Content (js_or (js_get j ''text'') (JStr []))
          else if fst b = js ''error'' then Error (js_or (js_get j ''error'') (JStr unknown_error))
          else Done j)"

text \<open>
  A decoder for the examples: it decodes four texts as \<open>JSON.parse\<close> does and rejects
  every other text, among them \<open>{oops\<close>, which \<open>JSON.parse\<close> rejects too.
\<close>

definition sample_parse :: "jsstring \<Rightarrow> json option" where
  \<open>sample_parse t =
     (if t = js ''{}'' then Some (JObj [])
      else if t = js ''{"text":"hi"}'' then Some (JObj [(js ''text'', JStr (js ''hi''))])
      else if t = js ''{"bullet_points":[]}'' then Some (JObj [(js ''bullet_points'', JArr [])])
      else if t = js ''null'' then Some JNull
      else None)\<close>

section \<open>The incremental block parsers\<close>

subsection \<open>\<open>parseLatestThinkBlock\<close> (\<open>app/page.tsx\<close>)\<close>

text \<open>
  \<open>thinkingText.split(/\n\n(?=\*\*)/)\<close>: a match is a blank line followed by two stars;
  it consumes the two newlines only, and the scan goes on at the stars.
\<close>

fun split_think :: "jsstring \<Rightarrow> jsstring list" where
  "split_think [] = [[]]"
| "split_think (c # cs) =
     (if prefix [NL, NL, STAR, STAR] (c # cs) then [] # split_think (tl cs)
      else cons_first c (split_think cs))"

text \<open>
  \<open>(.+?)\*\*\<close> on the text after the opening stars: the shortest non-empty run of
  characters other than line terminators that is followed by two stars.
\<close>

fun lazy_until_stars :: "jsstring \<Rightarrow> jsstring option" where
  "lazy_until_stars [] = None"
| "lazy_until_stars (c # cs) =
     (if is_line_terminator c then None
      else if prefix [STAR, STAR] cs then Some [c]
      else map_option ((#) c) (lazy_until_stars cs))"

text \<open>
  \<open>/^\*\*(.+?)\*\*/\<close> on a block: the captured title and the text after the closing
  stars, or \<open>None\<close> when the block does not start with a complete heading.
\<close>

definition heading_match :: "jsstring \<Rightarrow> (jsstring \<times> jsstring) option" where
  "heading_match b =
     (if prefix [STAR, STAR] b then
        (case lazy_until_stars (drop 2 b) of
           None \<Rightarrow> None
         | Some t \<Rightarrow> Some (t, drop (length t + 4) b))
      else None)"

text \<open>The result is the pair \<open>(title, content)\<close>.\<close>

definition parseLatestThinkBlock :: "jsstring \<Rightarrow> jsstring \<times> jsstring" where
  "parseLatestThinkBlock thinkingText =
     (if thinkingText = [] then ([], [])
      else
        let blocks = split_think thinkingText;
            lastBlock = (if blocks = [] then [] else last blocks);
            titleMatch = heading_match lastBlock;
            title = (case titleMatch of None \<Rightarrow> [] | Some (t, rest) \<Rightarrow> t);
            content = trim (case titleMatch of
                              None \<Rightarrow> lastBlock
                            | Some (t, rest) \<Rightarrow> dropWhile (\<lambda>c. c = NL) rest)
        in (title, content))"

subsection \<open>\<open>parseStreamingBulletPoints\<close> (insight card)\<close>

definition summary_marker :: jsstring where
  "summary_marker = [0x5B, 0xC694, 0xC57D, 0x5D]"

text \<open>
  \<open>\s*\n([\s\S]*?)$\<close> after the marker: the greedy \<open>\s*\<close> gives back down to the last
  newline of the white space that follows the marker; the group is all that comes after
  that newline.
\<close>

definition summary_section_at :: "jsstring \<Rightarrow> jsstring option" where
  "summary_section_at after =
     (let w = takeWhile is_space after
      in if NL \<in> set w
         then Some (drop (length w - length (takeWhile (\<lambda>c. c \<noteq> NL) (rev w))) after)
         else None)"

text \<open>The leftmost position where the whole pattern matches.\<close>

fun find_summary :: "jsstring \<Rightarrow> jsstring option" where
  "find_summary [] = None"
| "find_summary (c # cs) =
     (if prefix summary_marker (c # cs) then
        (case summary_section_at (drop 3 cs) of
           Some g \<Rightarrow> Some g
         | None \<Rightarrow> find_summary cs)
      else find_summary cs)"

definition is_bullet :: "jschar \<Rightarrow> bool" where
  "is_bullet c \<longleftrightarrow> c = 0x2022 \<or> c = 0x2D \<or> c = STAR"

text \<open>One turn of the loop over the lines: the point pushed, if any.\<close>

definition bullet_of_line :: "jsstring \<Rightarrow> jsstring list" where
  "bullet_of_line line =
     (let trimmed = trim line
      in case trimmed of
           [] \<Rightarrow> []
         | c # cs \<Rightarrow>
             if is_bullet c then
               (let point = trim (dropWhile is_space cs) in if point \<noteq> [] then [point] else [])
             else [])"

definition parseStreamingBulletPoints :: "jsstring \<Rightarrow> jsstring list" where
  "parseStreamingBulletPoints content =
     (if content = [] then []
      else
        let summaryText = (case find_summary content of None \<Rightarrow> content | Some g \<Rightarrow> g);
            lines = js_split [NL] summaryText
        in concat (map bullet_of_line lines))"

section \<open>\<open>extractArticleId\<close> (\<open>lib/api.ts\<close>)\<close>

text \<open>
  \<open>hashCode\<close>: \<open>hash << 5\<close> and \<open>hash & hash\<close> are 32-bit operations and the sum in
  between is exact, so each turn computes \<open>31 * hash + char\<close> in 32-bit two's complement.
\<close>

definition hashCode :: "jsstring \<Rightarrow> int" where
  "hashCode str = sint (fold (\<lambda>ch hash. push_bit 5 hash - hash + ucast ch) str (0 :: 32 word))"

text \<open>The decimal digits of a number, as a template literal prints a non-negative integer.\<close>

fun dec_digits :: "nat \<Rightarrow> jsstring" where
  "dec_digits n = (if n < 10 then [0x30 + of_nat n] else dec_digits (n div 10) @ [0x30 + of_nat (n mod 10)])"

declare dec_digits.simps [simp del]

text \<open>
  What the source reads of \<open>new URL(url)\<close>: \<open>searchParams.get("id")\<close> (\<open>None\<close> for
  \<open>null\<close>) and \<open>pathname\<close>.  The URL parser is the platform's and is a parameter of the
  model: \<open>None\<close> when the constructor throws.
\<close>

record parsed_url =
  search_id :: "jsstring option"
  pathname :: jsstring

definition is_hex_lower :: "jschar \<Rightarrow> bool" where
  "is_hex_lower c \<longleftrightarrow> (0x61 \<le> c \<and> c \<le> 0x66) \<or> (0x30 \<le> c \<and> c \<le> 0x39)"

text \<open>\<open>slug.replace(/-[a-f0-9]{10,}$/, "")\<close>: the leftmost match is cut off.\<close>

fun strip_hash :: "jsstring \<Rightarrow> jsstring" where
  "strip_hash [] = []"
| "strip_hash (c # cs) =
     (if c = 0x2D \<and> 10 \<le> length cs \<and> list_all is_hex_lower cs then []
      else c # strip_hash cs)"

text \<open>The \<open>try\<close> block: \<open>Some id\<close> when it returns, \<open>None\<close> when it falls through or throws.\<close>

definition platform_id :: "(jsstring \<Rightarrow> parsed_url option) \<Rightarrow> jsstring \<Rightarrow> jsstring \<Rightarrow> jsstring option" where
  "platform_id url_parse url platform =
     (case url_parse url of
        None \<Rightarrow> None
      | Some parsed \<Rightarrow>
          if platform = js ''geeknews'' then
            (case search_id parsed of
               None \<Rightarrow> None
             | Some topicId \<Rightarrow> if topicId \<noteq> [] then Some (js ''topic_'' @ topicId) else None)
          else if platform = js ''medium'' then
            (let pathParts = filter (\<lambda>p. p \<noteq> []) (js_split (js ''/'') (pathname parsed))
             in if length pathParts > 0 then
                  (let slug = last pathParts;
                       slugClean = strip_hash slug
                   in if slugClean \<noteq> [] then Some (take 50 slugClean) else None)
                else None)
          else None)"

definition extractArticleId :: "(jsstring \<Rightarrow> parsed_url option) \<Rightarrow> jsstring \<Rightarrow> jsstring \<Rightarrow> jsstring" where
  "extractArticleId url_parse url platform =
     (case platform_id url_parse url platform of
        Some aid \<Rightarrow> aid
      | None \<Rightarrow> js ''article_'' @ dec_digits (nat \<bar>hashCode url\<bar> mod 100000000))"

section \<open>Generation tracks: the callback wrappers (\<open>lib/api.ts\<close>)\<close>

text \<open>
  The callbacks act on the caller's state \<open>'st\<close>; a callback returns the new state and
  what it threw, if anything.  Each callback is optional (\<open>callbacks.onDone?.(...)\<close>).
\<close>

type_synonym 'st callback = "json \<Rightarrow> 'st \<Rightarrow> 'st \<times> thrown option"

record 'st callbacks =
  onThinking :: "'st callback option"
  onContent :: "'st callback option"
  onDone :: "'st callback option"
  onError :: "'st callback option"

definition call :: "'st callback option \<Rightarrow> json \<Rightarrow> 'st \<Rightarrow> 'st \<times> thrown option" where
  "call cb x st = (case cb of None \<Rightarrow> (st, None) | Some f \<Rightarrow> f x st)"

text \<open>The \<open>switch (event.type)\<close>.\<close>

fun dispatch :: "'st callbacks \<Rightarrow> stream_event \<Rightarrow> 'st \<Rightarrow> 'st \<times> thrown option" where
  "dispatch cbs (Thinking v) st = call (onThinking cbs) v st"
| "dispatch cbs (Content v) st = call (onContent cbs) v st"
| "dispatch cbs (Done v) st = call (onDone cbs) v st"
| "dispatch cbs (Error v) st = call (onError cbs) v st"

text \<open>
  The \<open>catch (err)\<close> of the wrapper: \<open>onError\<close> with the message of an \<open>Error\<close>, or with
  the wrapper's default text.  What \<open>onError\<close> throws here is an unhandled rejection.
\<close>

definition catch_handler :: "jsstring \<Rightarrow> 'st callbacks \<Rightarrow> thrown \<Rightarrow> 'st \<Rightarrow> 'st" where
  "catch_handler dflt cbs err st =
     fst (call (onError cbs) (JStr (case err of ErrorObj m \<Rightarrow> m | NonError \<Rightarrow> dflt)) st)"

text \<open>What awaiting the next element of the generator gives.\<close>

datatype pull = Next stream_event | Raise thrown | EndOfStream

text \<open>
  One turn of \<open>for await (const event of stream)\<close> inside \<open>try\<close>/\<open>catch\<close>, given the
  controller's \<open>signal.aborted\<close> at that moment; the flag returned tells whether the loop
  goes on.
\<close>

fun consume :: "jsstring \<Rightarrow> 'st callbacks \<Rightarrow> bool \<Rightarrow> pull \<Rightarrow> 'st \<Rightarrow> 'st \<times> bool" where
  "consume dflt cbs aborted EndOfStream st = (st, False)"
| "consume dflt cbs aborted (Raise err) st = (catch_handler dflt cbs err st, False)"
| "consume dflt cbs aborted (Next ev) st =
     (if aborted then (st, False)
      else (case dispatch cbs ev st of
              (st', None) \<Rightarrow> (st', True)
            | (st', Some err) \<Rightarrow> (catch_handler dflt cbs err st', False)))"

definition streaming_error :: jsstring where
  "streaming_error = [0xC2A4, 0xD2B8, 0xB9AC, 0xBC0D, 0x20, 0xC624, 0xB958]"

definition script_streaming_error :: jsstring where
  "script_streaming_error =
     [0xC2A4, 0xD06C, 0xB9BD, 0xD2B8, 0x20, 0xC2A4, 0xD2B8, 0xB9AC, 0xBC0D, 0x20, 0xC624, 0xB958]"

definition summarizeStreamWithCallbacks :: "'st callbacks \<Rightarrow> bool \<Rightarrow> pull \<Rightarrow> 'st \<Rightarrow> 'st \<times> bool" where
  "summarizeStreamWithCallbacks = consume streaming_error"

definition generateScriptStreamWithCallbacks :: "'st callbacks \<Rightarrow> bool \<Rightarrow> pull \<Rightarrow> 'st \<Rightarrow> 'st \<times> bool" where
  "generateScriptStreamWithCallbacks = consume script_streaming_error"

text \<open>Callbacks that only record their invocation, to observe what a wrapper calls.\<close>

datatype invoked = OnThinking json | OnContent json | OnDone json | OnError json

definition recording :: "invoked list callbacks" where
  "recording =
     \<lparr> onThinking = Some (\<lambda>v log. (log @ [OnThinking v], None)),
       onContent = Some (\<lambda>v log. (log @ [OnContent v], None)),
       onDone = Some (\<lambda>v log. (log @ [OnDone v], None)),
       onError = Some (\<lambda>v log. (log @ [OnError v], None)) \<rparr>"

section \<open>The pipeline orchestrator (\<open>handleSubmit\<close> in \<open>app/page.tsx\<close>)\<close>

subsection \<open>Conversions to string\<close>

fun join_comma :: "jsstring list \<Rightarrow> jsstring" where
  "join_comma [] = []"
| "join_comma [x] = x"
| "join_comma (x # y # r) = x @ [0x2C] @ join_comma (y # r)"

text \<open>\<open>ToString\<close> of a decoded value, as \<open>prev.thinking + text\<close> and a template literal apply it.\<close>

fun js_to_string :: "json \<Rightarrow> jsstring" where
  "js_to_string JNull = js ''null''"
| "js_to_string (JBool b) = (if b then js ''true'' else js ''false'')"
| "js_to_string (JNum z t) = t"
| "js_to_string (JStr s) = s"
| "js_to_string (JArr xs) = join_comma (map (\<lambda>v. if v = JNull then [] else js_to_string v) xs)"
| "js_to_string (JObj kvs) = js ''[object Object]''"

text \<open>\<open>${x}\<close> where \<open>x\<close> may be \<open>undefined\<close>.\<close>

fun template :: "json option \<Rightarrow> jsstring" where
  "template None = js ''undefined''"
| "template (Some v) = js_to_string v"

text \<open>\<open>API_BASE\<close> when the environment variable is not set.\<close>

definition API_BASE :: jsstring where
  "API_BASE = js ''http://localhost:8000''"

definition DEFAULT_USER_ID :: jsstring where
  "DEFAULT_USER_ID = js ''default''"

text \<open>The default parameter applies when \<open>userId\<close> is \<open>undefined\<close>.\<close>

definition getAudioUrl :: "json option \<Rightarrow> json option \<Rightarrow> jsstring" where
  "getAudioUrl articleId userId =
     API_BASE @ js ''/api/v1/audio/'' @ template articleId @ js ''.mp3?user_id=''
       @ (case userId of None \<Rightarrow> DEFAULT_USER_ID | Some v \<Rightarrow> js_to_string v)"

subsection \<open>State\<close>

datatype ProcessingStatus = Idle | Crawling | Processing | StatusDone | StatusError

datatype AudioStatus = AudioIdle | Scripting | Synthesizing | AudioDone | Ready | AudioError

datatype stage = Crawl | Summarize | Script

record StreamingState =
  isStreaming :: bool
  thinking :: jsstring
  content :: jsstring
  currentThinkingTitle :: jsstring
  currentThinkingContent :: jsstring

definition emptyStreaming :: StreamingState where
  "emptyStreaming =
     \<lparr> isStreaming = False, thinking = [], content = [],
       currentThinkingTitle = [], currentThinkingContent = [] \<rparr>"

text \<open>
  The component's state: the React state (the first eleven fields, what is rendered), the
  two refs, and what lives in the closures and promises of the runs.  A run is one call of
  \<open>handleSubmit\<close>, numbered in call order; its two \<open>AbortController\<close>s and its variables
  \<open>summaryDone\<close>, \<open>scriptDone\<close> are its own.  The calls of \<open>synthesizeAudio\<close> are numbered in
  call order too; each pending call has its own continuation, which holds the payload
  \<open>result\<close> it was made for.  Responses and payloads are the decoded JSON (\<open>JNull\<close> is
  \<open>null\<close>).
\<close>

record page =
  status :: ProcessingStatus
  error :: "(stage \<times> json) option"
  crawlData :: json
  summaryData :: json
  scriptData :: json
  audioStatus :: AudioStatus
  audioError :: json
  synthesizeData :: json
  audioUrl :: "jsstring option"
  streaming :: StreamingState
  scriptStreaming :: StreamingState
  abortControllerRef :: "nat option"
  scriptAbortControllerRef :: "nat option"
  abortedSummary :: "nat list"
  abortedScript :: "nat list"
  summaryDone :: "nat list"
  scriptDone :: "nat list"
  nextRun :: nat
  crawling :: "(nat \<times> jsstring) list"
  summaryReading :: "nat list"
  scriptReading :: "nat list"
  nextSynth :: nat
  synthesizing :: "(nat \<times> json) list"

definition initial :: page where
  "initial =
     \<lparr> status = Idle, error = None, crawlData = JNull, summaryData = JNull, scriptData = JNull,
       audioStatus = AudioIdle, audioError = JNull, synthesizeData = JNull, audioUrl = None,
       streaming = emptyStreaming, scriptStreaming = emptyStreaming,
       abortControllerRef = None, scriptAbortControllerRef = None,
       abortedSummary = [], abortedScript = [], summaryDone = [], scriptDone = [],
       nextRun = 0, crawling = [], summaryReading = [], scriptReading = [],
       nextSynth = 0, synthesizing = [] \<rparr>"

subsection \<open>The callbacks of a run\<close>

definition checkAllDone :: "nat \<Rightarrow> page \<Rightarrow> page" where
  "checkAllDone r s =
     (if r \<in> set (summaryDone s) \<and> r \<in> set (scriptDone s) then s\<lparr>status := StatusDone\<rparr> else s)"

text \<open>The updater passed to \<open>setStreaming\<close> and \<open>setScriptStreaming\<close> by \<open>onThinking\<close>.\<close>

definition add_thinking :: "json \<Rightarrow> StreamingState \<Rightarrow> StreamingState" where
  "add_thinking text prev =
     (let newThinking = thinking prev @ js_to_string text;
          parsed = parseLatestThinkBlock newThinking
      in prev\<lparr>thinking := newThinking,
              currentThinkingTitle := fst parsed,
              currentThinkingContent := snd parsed\<rparr>)"

definition add_content :: "json \<Rightarrow> StreamingState \<Rightarrow> StreamingState" where
  "add_content text prev = prev\<lparr>content := content prev @ js_to_string text\<rparr>"

text \<open>
  Track 1.  In \<open>onDone\<close>, \<open>console.log(..., result.main_topic)\<close> throws on a \<open>null\<close>
  payload, after the three updates before it.
\<close>

definition summary_callbacks :: "nat \<Rightarrow> page callbacks" where
  "summary_callbacks r =
     \<lparr> onThinking = Some (\<lambda>text s. (s\<lparr>streaming := add_thinking text (streaming s)\<rparr>, None)),
       onContent = Some (\<lambda>text s. (s\<lparr>streaming := add_content text (streaming s)\<rparr>, None)),
       onDone = Some (\<lambda>result s.
         (let s1 = s\<lparr>summaryData := result,
                     streaming := (streaming s)\<lparr>isStreaming := False\<rparr>,
                     summaryDone := r # summaryDone s\<rparr>
          in if result = JNull then (s1, Some (type_error ''null'' ''main_topic''))
             else (checkAllDone r s1, None))),
       onError = Some (\<lambda>errorMsg s.
         (checkAllDone r (s\<lparr>error := Some (Summarize, errorMsg),
                            streaming := (streaming s)\<lparr>isStreaming := False\<rparr>,
                            summaryDone := r # summaryDone s\<rparr>), None)) \<rparr>"

text \<open>
  Track 2.  \<open>onDone\<close> is an \<open>async\<close> function: it runs up to \<open>await synthesizeAudio(...)\<close>
  and what it throws before (\<open>result.script.title\<close> of a payload without \<open>script\<close>)
  rejects its own promise, which nobody awaits.  The rest of it is the continuation
  \<open>onDone_synthesized\<close> or \<open>onDone_catch\<close> below.
\<close>

definition script_callbacks :: "nat \<Rightarrow> page callbacks" where
  "script_callbacks r =
     \<lparr> onThinking = Some (\<lambda>text s. (s\<lparr>scriptStreaming := add_thinking text (scriptStreaming s)\<rparr>, None)),
       onContent = Some (\<lambda>text s. (s\<lparr>scriptStreaming := add_content text (scriptStreaming s)\<rparr>, None)),
       onDone = Some (\<lambda>result s.
         (let s1 = s\<lparr>scriptData := result,
                     scriptStreaming := (scriptStreaming s)\<lparr>isStreaming := False\<rparr>,
                     audioStatus := AudioDone,
                     scriptDone := r # scriptDone s\<rparr>
          in if result = JNull \<or> js_get result ''script'' = None \<or> js_get result ''script'' = Some JNull
             then (s1, None)
             else (let s2 = checkAllDone r s1
                   in (s2\<lparr>audioStatus := Synthesizing,
                          synthesizing := synthesizing s2 @ [(nextSynth s2, result)],
                          nextSynth := Suc (nextSynth s2)\<rparr>, None)))),
       onError = Some (\<lambda>errorMsg s.
         (checkAllDone r (s\<lparr>audioError := errorMsg,
                            scriptStreaming := (scriptStreaming s)\<lparr>isStreaming := False\<rparr>,
                            audioStatus := AudioError,
                            scriptDone := r # scriptDone s\<rparr>), None)) \<rparr>"

subsection \<open>The steps of \<open>handleSubmit\<close>\<close>

definition unknown_error_occurred :: jsstring where
  "unknown_error_occurred =
     [0xC54C, 0x20, 0xC218, 0x20, 0xC5C6, 0xB294, 0x20, 0xC624, 0xB958, 0xAC00, 0x20,
      0xBC1C, 0xC0DD, 0xD588, 0xC2B5, 0xB2C8, 0xB2E4, 0x2E]"

definition tts_failed :: jsstring where
  "tts_failed =
     [0x54, 0x54, 0x53, 0x20, 0xD569, 0xC131, 0xC5D0, 0x20, 0xC2E4, 0xD328, 0xD588, 0xC2B5,
      0xB2C8, 0xB2E4, 0x2E]"

definition message_of :: "jsstring \<Rightarrow> thrown \<Rightarrow> json" where
  "message_of dflt err = JStr (case err of ErrorObj m \<Rightarrow> m | NonError \<Rightarrow> dflt)"

text \<open>
  \<open>handleSubmit\<close> from its call to \<open>await crawlUrl(url)\<close>: the controllers in the two
  refs are aborted, the React state is reset, the crawl request is sent.  The rest of the
  function runs when the crawl settles: \<open>handleSubmit_crawled\<close> or \<open>handleSubmit_catch\<close>.
\<close>

definition handleSubmit :: "jsstring \<Rightarrow> page \<Rightarrow> page" where
  "handleSubmit u s =
     s\<lparr> abortedSummary :=
           (case abortControllerRef s of None \<Rightarrow> abortedSummary s | Some c \<Rightarrow> c # abortedSummary s),
         abortedScript :=
           (case scriptAbortControllerRef s of None \<Rightarrow> abortedScript s | Some c \<Rightarrow> c # abortedScript s),
         status := Crawling, error := None, crawlData := JNull, summaryData := JNull,
         scriptData := JNull, audioStatus := AudioIdle, audioError := JNull,
         synthesizeData := JNull, audioUrl := None,
         streaming := emptyStreaming, scriptStreaming := emptyStreaming,
         crawling := crawling s @ [(nextRun s, u)], nextRun := Suc (nextRun s) \<rparr>"

text \<open>A pending call settles once: its entry, the first with its number, is taken out.\<close>

fun without :: "nat \<Rightarrow> (nat \<times> 'a) list \<Rightarrow> (nat \<times> 'a) list" where
  "without k [] = []"
| "without k (p # ps) = (if fst p = k then ps else p # without k ps)"

text \<open>
  After \<open>crawlUrl\<close> resolved for run \<open>r\<close>, to the end of the \<open>try\<close>: both tracks are
  started and their controllers stored in the refs.  \<open>crawled.title\<close> of a \<open>null\<close>
  response throws into the \<open>catch\<close>.  (\<open>articleId\<close> goes into the two requests only.)
\<close>

definition handleSubmit_crawled :: "nat \<Rightarrow> json \<Rightarrow> page \<Rightarrow> page" where
  "handleSubmit_crawled r crawled s =
     (let s1 = s\<lparr>crawling := without r (crawling s), crawlData := crawled\<rparr>
      in if crawled = JNull then
           s1\<lparr>error := Some (Crawl, message_of unknown_error_occurred (type_error ''null'' ''title'')),
              status := StatusError\<rparr>
         else
           s1\<lparr>status := Processing,
              streaming := (streaming s1)\<lparr>isStreaming := True\<rparr>,
              audioStatus := Scripting,
              abortControllerRef := Some r,
              summaryReading := r # summaryReading s1,
              scriptStreaming := (scriptStreaming s1)\<lparr>isStreaming := True\<rparr>,
              scriptAbortControllerRef := Some r,
              scriptReading := r # scriptReading s1\<rparr>)"

definition handleSubmit_catch :: "nat \<Rightarrow> thrown \<Rightarrow> page \<Rightarrow> page" where
  "handleSubmit_catch r err s =
     s\<lparr>crawling := without r (crawling s),
       error := Some (Crawl, message_of unknown_error_occurred err),
       status := StatusError\<rparr>"

definition summary_pull :: "nat \<Rightarrow> pull \<Rightarrow> page \<Rightarrow> page" where
  "summary_pull r p s =
     (case summarizeStreamWithCallbacks (summary_callbacks r) (r \<in> set (abortedSummary s)) p s of
        (s', goes_on) \<Rightarrow>
          if goes_on then s' else s'\<lparr>summaryReading := removeAll r (summaryReading s')\<rparr>)"

definition script_pull :: "nat \<Rightarrow> pull \<Rightarrow> page \<Rightarrow> page" where
  "script_pull r p s =
     (case generateScriptStreamWithCallbacks (script_callbacks r) (r \<in> set (abortedScript s)) p s of
        (s', goes_on) \<Rightarrow>
          if goes_on then s' else s'\<lparr>scriptReading := removeAll r (scriptReading s')\<rparr>)"

text \<open>
  After \<open>await synthesizeAudio(...)\<close> in the \<open>onDone\<close> of track 2, for the payload
  \<open>result\<close> of that call; \<open>ttsResult.duration_seconds\<close> of a \<open>null\<close> response throws into
  the \<open>catch (ttsErr)\<close>.
\<close>

definition onDone_synthesized :: "json \<Rightarrow> json \<Rightarrow> page \<Rightarrow> page" where
  "onDone_synthesized result ttsResult s =
     (let s1 = s\<lparr>synthesizeData := ttsResult,
                 audioUrl := Some (getAudioUrl (js_get result ''article_id'') (js_get result ''user_id'')),
                 audioStatus := Ready\<rparr>
      in if ttsResult = JNull then
           s1\<lparr>audioError := message_of tts_failed (type_error ''null'' ''duration_seconds''),
              audioStatus := AudioError\<rparr>
         else s1)"

definition onDone_catch :: "thrown \<Rightarrow> page \<Rightarrow> page" where
  "onDone_catch ttsErr s = s\<lparr>audioError := message_of tts_failed ttsErr, audioStatus := AudioError\<rparr>"

text \<open>
  What can happen to the component: the user submits the form that is shown, holding
  the text \<open>u\<close>, or something a run awaits settles (\<open>SynthResolved c\<close> and
  \<open>SynthRejected c\<close> settle the call of \<open>synthesizeAudio\<close> with number \<open>c\<close>).  An event
  for a run or call that does not await it changes nothing.

  The form is the welcome input at status \<open>idle\<close> and the header's input otherwise; both
  call \<open>onSubmit(url.trim())\<close> only if \<open>url.trim()\<close> is not empty and \<open>isLoading\<close> is
  false, and the header is given \<open>isLoading\<close> as below (the welcome input is given
  \<open>false\<close>, at a status where \<open>isLoading\<close> below is false too).  The welcome input's own
  validation state can only refuse more and is not modelled.
\<close>

definition isLoading :: "page \<Rightarrow> bool" where
  "isLoading s \<longleftrightarrow> status s = Crawling \<or> status s = Processing"

datatype event =
    Submit jsstring
  | CrawlResolved nat json
  | CrawlRejected nat thrown
  | SummaryPull nat pull
  | ScriptPull nat pull
  | SynthResolved nat json
  | SynthRejected nat thrown

fun step :: "event \<Rightarrow> page \<Rightarrow> page" where
  "step (Submit u) s = (if trim u \<noteq> [] \<and> \<not> isLoading s then handleSubmit (trim u) s else s)"
| "step (CrawlResolved r crawled) s =
     (if r \<in> fst ` set (crawling s) then handleSubmit_crawled r crawled s else s)"
| "step (CrawlRejected r err) s =
     (if r \<in> fst ` set (crawling s) then handleSubmit_catch r err s else s)"
| "step (SummaryPull r p) s = (if r \<in> set (summaryReading s) then summary_pull r p s else s)"
| "step (ScriptPull r p) s = (if r \<in> set (scriptReading s) then script_pull r p s else s)"
| "step (SynthResolved c ttsResult) s =
     (case map_of (synthesizing s) c of
        None \<Rightarrow> s
      | Some result \<Rightarrow> onDone_synthesized result ttsResult (s\<lparr>synthesizing := without c (synthesizing s)\<rparr>))"
| "step (SynthRejected c ttsErr) s =
     (case map_of (synthesizing s) c of
        None \<Rightarrow> s
      | Some result \<Rightarrow> onDone_catch ttsErr (s\<lparr>synthesizing := without c (synthesizing s)\<rparr>))"

definition run_events :: "event list \<Rightarrow> page \<Rightarrow> page" where
  "run_events evs s = fold step evs s"

subsection \<open>What the audio card renders\<close>

text \<open>
  The content panel is rendered at every status but \<open>idle\<close>.  In it, the audio card
  renders the script (title, paragraphs, counts) in three of its sections and nowhere
  else: while synthesizing, when only the script is done, and when the audio is ready,
  each time only if \<open>scriptData\<close> is truthy and the script is not streaming.  At the audio
  status \<open>error\<close> it renders the error panel.
\<close>

definition script_rendered :: "page \<Rightarrow> bool" where
  "script_rendered s \<longleftrightarrow>
     status s \<noteq> Idle \<and> truthy (scriptData s) \<and> \<not> isStreaming (scriptStreaming s)
     \<and> (audioStatus s = Synthesizing
          \<or> (audioStatus s = AudioDone \<and> scriptData s \<noteq> JNull)
          \<or> (audioStatus s = Ready \<and> audioUrl s \<noteq> None \<and> audioUrl s \<noteq> Some []))"

definition error_panel_rendered :: "page \<Rightarrow> bool" where
  "error_panel_rendered s \<longleftrightarrow>
     status s \<noteq> Idle \<and> audioStatus s = AudioError"

subsection \<open>Reasoning blocks, in the words of the specification\<close>

text \<open>
  The heading-boundary pattern is a blank line followed by two stars; \<open>boundaries\<close>
  counts its occurrences in a buffer.
\<close>

fun boundaries :: "jsstring \<Rightarrow> nat" where
  "boundaries [] = 0"
| "boundaries (c # cs) = (if prefix [NL, NL, STAR, STAR] (c # cs) then 1 else 0) + boundaries cs"

text \<open>
  \<open>shortest t\<close>: no two stars stand in \<open>t\<close> followed by the closing stars before the
  closing stars themselves, from the second character of \<open>t\<close> on.
\<close>

definition shortest :: "jsstring \<Rightarrow> bool" where
  "shortest t = list_all (\<lambda>k. \<not> prefix [STAR, STAR] (drop k (t @ [STAR, STAR]))) [1..<length t]"

text \<open>
  A block starts with the heading \<open>t\<close> and goes on with \<open>rest\<close>: a non-empty one-line
  text between two pairs of stars, closed by the first pair of stars that can close it.
\<close>

definition heading_of :: "jsstring \<Rightarrow> jsstring \<Rightarrow> jsstring \<Rightarrow> bool" where
  "heading_of b t rest \<longleftrightarrow>
     b = [STAR, STAR] @ t @ [STAR, STAR] @ rest \<and> t \<noteq> []
     \<and> list_all (\<lambda>c. \<not> is_line_terminator c) t \<and> shortest t"

subsection \<open>Result invariants and example payloads\<close>

text \<open>
  The invariants of the specification's data model on a final payload: a summary has at
  least one point; a script has at least one segment and no empty segment.
\<close>

definition summary_result_ok :: "json \<Rightarrow> bool" where
  "summary_result_ok j =
     (case js_get j ''bullet_points'' of Some (JArr (p # ps)) \<Rightarrow> True | _ \<Rightarrow> False)"

definition script_result_ok :: "json \<Rightarrow> bool" where
  "script_result_ok j =
     (case js_get j ''script'' of
        Some sc \<Rightarrow>
          (case js_get sc ''paragraphs'' of
             Some (JArr (p # ps)) \<Rightarrow> list_all (\<lambda>x. x \<noteq> JStr [] \<and> (\<exists>t. x = JStr t)) (p # ps)
           | _ \<Rightarrow> False)
      | None \<Rightarrow> False)"

definition no_points :: json where
  "no_points = JObj [(js ''bullet_points'', JArr [])]"

definition summary_1 :: json where
  "summary_1 =
     JObj [(js ''main_topic'', JStr (js ''M'')), (js ''bullet_points'', JArr [JStr (js ''a'')])]"

definition crawled_x :: json where
  "crawled_x = JObj [(js ''title'', JStr (js ''X'')), (js ''platform'', JStr (js ''geeknews''))]"

definition script_1 :: json where
  "script_1 =
     JObj [(js ''article_id'', JStr (js ''topic_1'')), (js ''user_id'', JStr (js ''default'')),
           (js ''script'', JObj [(js ''title'', JStr (js ''T'')),
                                 (js ''paragraphs'', JArr [JStr (js ''p'')])])]"

definition tts_1 :: json where
  "tts_1 = JObj [(js ''article_id'', JStr (js ''topic_1'')), (js ''duration_seconds'', JNum False (js ''12''))]"

section \<open>The speech synthesis engine\<close>

text \<open>
  Modelled from the spec: the synthesis service of the back end (\<open>synthesize_speech\<close> and
  \<open>_merge_audio_chunks\<close> of \<open>backend/app/services/audio.py\<close>) is not among the sources;
  only its description is.  The model follows the specification's algorithm: one
  synthesis call per segment, all started together and settling in any order; each
  result is kept at the index of its segment; if every call succeeded, the buffers are
  joined in index order with the silence block between consecutive segments.
\<close>

type_synonym audio = "8 word list"

text \<open>
  Modelled from the spec: awaiting all calls.  A completion \<open>(i, r)\<close> is the settling of
  the call for segment \<open>i\<close>, with \<open>r = None\<close> when it failed; the list is in completion
  order.
\<close>

definition gather :: "nat \<Rightarrow> (nat \<times> audio option) list \<Rightarrow> audio option option list" where
  "gather n completions = fold (\<lambda>c slots. slots[fst c := Some (snd c)]) completions (replicate n None)"

text \<open>
  Modelled from the spec: the merge, as a loop over the chunks in index order that puts
  the silence block before every chunk but the first.
\<close>

definition merge_audio_chunks :: "audio list \<Rightarrow> audio \<Rightarrow> audio" where
  "merge_audio_chunks chunks silence =
     fold (\<lambda>ic merged. (if 0 < fst ic then merged @ silence else merged) @ snd ic)
          (enumerate 0 chunks) []"

text \<open>
  Modelled from the spec: the all-or-nothing contract.  The audios in index order if
  every call has settled with a result, \<open>None\<close> if one is missing or failed.
\<close>

fun all_succeeded :: "audio option option list \<Rightarrow> audio list option" where
  "all_succeeded [] = Some []"
| "all_succeeded (Some (Some a) # r) = map_option ((#) a) (all_succeeded r)"
| "all_succeeded (_ # r) = None"

text \<open>Modelled from the spec: the merged artifact, or \<open>None\<close> for \<open>SynthesisFailed\<close>.\<close>

definition synthesize_speech :: "audio \<Rightarrow> nat \<Rightarrow> (nat \<times> audio option) list \<Rightarrow> audio option" where
  "synthesize_speech silence n completions =
     map_option (\<lambda>chunks. merge_audio_chunks chunks silence) (all_succeeded (gather n completions))"

text \<open>
  The artifact the specification asks for: the segment audios in segment order, one
  silence block between consecutive segments, none before the first or after the last.
\<close>

fun spaced :: "audio \<Rightarrow> audio list \<Rightarrow> audio" where
  "spaced silence [] = []"
| "spaced silence [a] = a"
| "spaced silence (a # b # r) = a @ silence @ spaced silence (b # r)"

section \<open>Properties of the stream demultiplexer\<close>

lemma cons_first_ne [simp]: "cons_first c xs \<noteq> []"
  by (cases xs) auto

lemma js_split_ne: "sep \<noteq> [] \<Longrightarrow> js_split sep s \<noteq> []"
  by (induction sep s rule: js_split.induct) auto

text \<open>A text that splits into one piece is that piece.\<close>

lemma js_split_single: "sep \<noteq> [] \<Longrightarrow> js_split sep s = [x] \<Longrightarrow> x = s"
proof (induction sep s arbitrary: x rule: js_split.induct)
  case (1 sep)
  then show ?case by simp
next
  case (2 sep c cs)
  show ?case
  proof (cases "prefix sep (c # cs)")
    case True
    with 2 show ?thesis by (simp add: js_split_ne)
  next
    case False
    with 2 obtain y where y: "js_split sep cs = [y]" "x = c # y"
      by (cases "js_split sep cs") (auto simp: js_split_ne split: if_splits list.splits elim: cons_first.elims)
    with 2 False show ?thesis by simp
  qed
qed

text \<open>The piece kept in the buffer holds no separator.\<close>

lemma js_split_last: "sep \<noteq> [] \<Longrightarrow> js_split sep (last (js_split sep s)) = [last (js_split sep s)]"
proof (induction sep s rule: js_split.induct)
  case (1 sep)
  then show ?case by simp
next
  case (2 sep c cs)
  show ?case
  proof (cases "prefix sep (c # cs)")
    case True
    with 2 show ?thesis by (simp add: js_split_ne)
  next
    case False
    show ?thesis
    proof (cases "js_split sep cs")
      case Nil
      with 2 show ?thesis by (simp add: js_split_ne)
    next
      case (Cons y ys)
      show ?thesis
      proof (cases ys)
        case Nil
        with Cons 2 have "y = cs" using js_split_single by blast
        with Nil Cons 2 False show ?thesis by simp
      next
        case (Cons z zs)
        with \<open>js_split sep cs = y # ys\<close> 2 False show ?thesis by simp
      qed
    qed
  qed
qed

text \<open>
  Splitting at blank lines commutes with buffering: the pieces of \<open>a @ b\<close> are the
  complete pieces of \<open>a\<close>, then the pieces of what \<open>a\<close> left over followed by \<open>b\<close>.
\<close>

lemma js_split_blank_append:
  "js_split [NL, NL] (a @ b) =
     butlast (js_split [NL, NL] a) @ js_split [NL, NL] (last (js_split [NL, NL] a) @ b)"
proof (induction "length a" arbitrary: a rule: less_induct)
  case less
  show ?case
  proof (cases a)
    case Nil
    then show ?thesis by simp
  next
    case (Cons c cs)
    show ?thesis
    proof (cases "prefix [NL, NL] (c # cs)")
      case True
      then obtain r where r: "cs = NL # r" "c = NL" by (cases cs) auto
      have "length r < length a" using Cons r by simp
      from less[OF this] Cons r show ?thesis
        by (simp add: js_split_ne butlast_append)
    next
      case False
      show ?thesis
      proof (cases "prefix [NL, NL] (c # cs @ b)")
        case True
        with False have "cs = []" "c = NL" by (cases cs; auto)+
        with Cons show ?thesis by simp
      next
        case nb: False
        have e1: "js_split [NL, NL] (c # cs) = cons_first c (js_split [NL, NL] cs)"
          using False by auto
        have e2: "js_split [NL, NL] (c # cs @ b) = cons_first c (js_split [NL, NL] (cs @ b))"
          using nb by auto
        have "length cs < length a" using Cons by simp
        note IH = less[OF this]
        show ?thesis
        proof (cases "js_split [NL, NL] cs")
          case Nil
          then show ?thesis by (simp add: js_split_ne)
        next
          case (Cons y ys)
          show ?thesis
          proof (cases ys)
            case Nil
            with Cons have "y = cs" using js_split_single[of "[NL, NL]" cs y] by simp
            with Nil Cons \<open>a = c # cs\<close> e1 e2 show ?thesis by (simp del: js_split.simps)
          next
            case (Cons z zs)
            with \<open>js_split [NL, NL] cs = y # ys\<close> \<open>a = c # cs\<close> e1 e2 IH show ?thesis
              by (simp del: js_split.simps)
          qed
        qed
      qed
    qed
  qed
qed

text \<open>
  What the loop emits does not depend on the chunk boundaries: it is what the complete
  pieces of the whole text emit, in order.
\<close>

lemma read_loop_eq:
  "js_split [NL, NL] buf = [buf] \<Longrightarrow>
   read_loop p tag buf chunks =
     concat (map (process_event p tag) (butlast (js_split [NL, NL] (buf @ concat chunks))))"
proof (induction chunks arbitrary: buf)
  case Nil
  then show ?case by simp
next
  case (Cons v rest)
  let ?ev = "js_split [NL, NL] (buf @ v)"
  have ne: "?ev \<noteq> []" by (simp add: js_split_ne)
  have l: "js_split [NL, NL] (last ?ev) = [last ?ev]" by (rule js_split_last) simp
  have "js_split [NL, NL] (buf @ concat (v # rest))
          = butlast ?ev @ js_split [NL, NL] (last ?ev @ concat rest)"
    using js_split_blank_append[of "buf @ v" "concat rest"] by simp
  then have "butlast (js_split [NL, NL] (buf @ concat (v # rest)))
          = butlast ?ev @ butlast (js_split [NL, NL] (last ?ev @ concat rest))"
    by (simp add: butlast_append js_split_ne)
  with Cons.IH[OF l] ne show ?case by (simp add: Let_def)
qed

text \<open>Blocks in the stream, and what a valid block emits.\<close>

lemma blank_free_split:
  "blank_free b \<Longrightarrow> js_split [NL, NL] (b @ NL # NL # rest) = b # js_split [NL, NL] rest"
  by (induction b rule: blank_free.induct) auto

lemma split_delimited:
  "list_all blank_free bs \<Longrightarrow> js_split [NL, NL] (delimited bs @ rest) = bs @ js_split [NL, NL] rest"
  by (induction bs) (auto simp: delimited_def blank_free_split)

lemma blank_free_nl_free: "NL \<notin> set a \<Longrightarrow> blank_free (a @ s) = blank_free s"
proof (induction a)
  case Nil
  then show ?case by simp
next
  case (Cons c a)
  then show ?case by (cases "a @ s") auto
qed

lemma split_nl_free: "NL \<notin> set a \<Longrightarrow> js_split [NL] a = [a]"
  by (induction a) auto

lemma split_nl_line: "NL \<notin> set a \<Longrightarrow> js_split [NL] (a @ NL # b) = a # js_split [NL] b"
  by (induction a) auto

lemma len_js [simp]: "length (js s) = length s" by (simp add: js_def)

lemma block_fields_sse:
  assumes "NL \<notin> set ty" "NL \<notin> set da"
  shows "block_fields (sse_block (ty, da)) = (ty, da)"
proof -
  have a: "NL \<notin> set (js ''event: '' @ ty)" using assms by (simp add: js_def)
  have b: "NL \<notin> set (js ''data: '' @ da)" using assms by (simp add: js_def)
  have "js_split [NL] (sse_block (ty, da)) = [js ''event: '' @ ty, js ''data: '' @ da]"
    using split_nl_line[OF a, of "js ''data: '' @ da"] split_nl_free[OF b]
    by (simp add: sse_block_def)
  then show ?thesis
    by (simp add: block_fields_def line_step_def) (simp add: js_def)
qed

lemma trim_sse: "trim (sse_block b) \<noteq> []"
  by (simp add: trim_def sse_block_def js_def is_space_def)

lemma blank_free_sse: "NL \<notin> set ty \<Longrightarrow> NL \<notin> set da \<Longrightarrow> blank_free (sse_block (ty, da))"
proof -
  assume a: "NL \<notin> set ty" "NL \<notin> set da"
  have 1: "NL \<notin> set (js ''event: '' @ ty)" using a by (simp add: js_def)
  have 2: "NL \<notin> set (js ''ata: '' @ da)" using a by (simp add: js_def)
  have "sse_block (ty, da) = (js ''event: '' @ ty) @ NL # 0x64 # (js ''ata: '' @ da)"
    by (simp add: sse_block_def js_def)
  moreover have "blank_free (NL # 0x64 # (js ''ata: '' @ da)) = blank_free (0x64 # (js ''ata: '' @ da))" by simp
  moreover have "blank_free ((0x64 # js ''ata: '') @ da @ []) = True" using blank_free_nl_free[of "(0x64 # js ''ata: '') @ da" "[]"] 2 by simp
  ultimately show ?thesis using blank_free_nl_free[OF 1] by simp
qed

lemma process_valid:
  assumes "valid_block parse b"
  shows "process_event parse tag (sse_block b) = [Yield (event_of parse b)]"
proof -
  obtain ty da where b: "b = (ty, da)" by (cases b)
  from assms b have ty: "ty = js ''thinking'' \<or> ty = js ''content'' \<or> ty = js ''done'' \<or> ty = js ''error''"
    and da: "da \<noteq> []" "NL \<notin> set da" by (auto simp: valid_block_def)
  from ty have nl: "NL \<notin> set ty" by (auto simp: js_def)
  from assms b obtain j where j: "parse da = Some j" "ty = js ''done'' \<or> j \<noteq> JNull"
    by (auto simp: valid_block_def split: option.splits)
  have f: "block_fields (sse_block (ty, da)) = (ty, da)" by (rule block_fields_sse[OF nl da(2)])
  have d: "js ''thinking'' \<noteq> js ''content''" "js ''thinking'' \<noteq> js ''done''" "js ''thinking'' \<noteq> js ''error''"
     "js ''content'' \<noteq> js ''done''" "js ''content'' \<noteq> js ''error''" "js ''done'' \<noteq> js ''error''"
    by (simp_all add: js_def)
  show ?thesis using ty j da d
    by (auto simp: process_event_def trim_sse f b event_of_def Let_def)
qed

lemma summarizeStream_body: "summarizeStream parse (Body chunks None) = read_loop parse SSE [] chunks"
  by (simp add: summarizeStream_def stream_of_def)

lemma generateScriptStream_body:
  "generateScriptStream parse (Body chunks None) = read_loop parse SSE_Script [] chunks"
  by (simp add: generateScriptStream_def stream_of_def)

lemma yielded_append: "yielded (a @ b) = yielded a @ yielded b"
  by (induction a rule: yielded.induct) auto

lemma read_loop_blocks:
  assumes "list_all blank_free bs" and "concat chunks = delimited bs"
  shows "read_loop parse tag [] chunks = concat (map (process_event parse tag) bs)"
proof -
  have "js_split [NL, NL] (delimited bs @ []) = bs @ [[]]"
    using split_delimited[OF assms(1), of "[]"] by simp
  then show ?thesis using read_loop_eq[of "[]" parse tag chunks] assms(2) by simp
qed

lemma valid_blank_free: "valid_block parse b \<Longrightarrow> blank_free (sse_block b)"
proof -
  assume v: "valid_block parse b"
  obtain ty da where b: "b = (ty, da)" by (cases b)
  from v b have "NL \<notin> set ty" "NL \<notin> set da" by (auto simp: valid_block_def js_def)
  then show ?thesis unfolding b by (rule blank_free_sse)
qed

lemma read_loop_valid_blocks:
  assumes "list_all (valid_block parse) blocks" and "concat chunks = delimited (map sse_block blocks)"
  shows "read_loop parse tag [] chunks = map (\<lambda>b. Yield (event_of parse b)) blocks"
proof -
  have bf: "list_all blank_free (map sse_block blocks)"
    using assms(1) by (induction blocks) (auto simp: valid_blank_free)
  have "concat (map (process_event parse tag) (map sse_block blocks)) = map (\<lambda>b. Yield (event_of parse b)) blocks"
    using assms(1) by (induction blocks) (auto simp: process_valid)
  then show ?thesis using read_loop_blocks[OF bf assms(2)] by simp
qed

lemma yielded_map_Yield: "yielded (map (\<lambda>b. Yield (f b)) bs) = map f bs"
  by (induction bs) auto

text \<open>
  Claim C3, as amended.  When the chunks of a stream concatenate to \<open>N\<close> valid blocks and
  one more valid \<open>done\<close> block, \<^emph>\<open>each followed by the blank-line delimiter\<close>, both
  generators yield exactly \<open>N + 1\<close> events, the events of the blocks in block order,
  wherever the chunk boundaries fall.
\<close>

theorem delimited_blocks_yield_events:
  assumes "list_all (valid_block parse) (bs @ [(js ''done'', d)])"
      and "concat chunks = delimited (map sse_block (bs @ [(js ''done'', d)]))"
  shows "yielded (summarizeStream parse (Body chunks None)) = map (event_of parse) (bs @ [(js ''done'', d)])
       \<and> yielded (generateScriptStream parse (Body chunks None)) = map (event_of parse) (bs @ [(js ''done'', d)])
       \<and> length (yielded (summarizeStream parse (Body chunks None))) = length bs + 1
       \<and> length (yielded (generateScriptStream parse (Body chunks None))) = length bs + 1"
  using read_loop_valid_blocks[OF assms, of SSE] read_loop_valid_blocks[OF assms, of SSE_Script]
  by (simp add: summarizeStream_body generateScriptStream_body yielded_map_Yield del: map_append)

theorem delimited_blocks_yield_events_witness:
  \<open>list_all (valid_block sample_parse) ([(js ''thinking'', js ''{"text":"hi"}'')] @ [(js ''done'', js ''{}'')])
   \<and> concat [js ''event: thinking\<newline>data: {"te'', js ''xt":"hi"}\<newline>'', js ''\<newline>event: done\<newline>data: {}\<newline>\<newline>'']
       = delimited (map sse_block ([(js ''thinking'', js ''{"text":"hi"}'')] @ [(js ''done'', js ''{}'')]))
   \<and> yielded (summarizeStream sample_parse
         (Body [js ''event: thinking\<newline>data: {"te'', js ''xt":"hi"}\<newline>'', js ''\<newline>event: done\<newline>data: {}\<newline>\<newline>''] None))
       = [Thinking (JStr (js ''hi'')), Done (JObj [])]\<close>
proof -
  have h1: \<open>list_all (valid_block sample_parse) ([(js ''thinking'', js ''{"text":"hi"}'')] @ [(js ''done'', js ''{}'')])\<close>
    by (simp add: valid_block_def sample_parse_def js_def)
  have h2: \<open>concat [js ''event: thinking\<newline>data: {"te'', js ''xt":"hi"}\<newline>'', js ''\<newline>event: done\<newline>data: {}\<newline>\<newline>'']
       = delimited (map sse_block ([(js ''thinking'', js ''{"text":"hi"}'')] @ [(js ''done'', js ''{}'')]))\<close>
    by (simp add: delimited_def sse_block_def js_def)
  have e: \<open>map (event_of sample_parse) ([(js ''thinking'', js ''{"text":"hi"}'')] @ [(js ''done'', js ''{}'')])
       = [Thinking (JStr (js ''hi'')), Done (JObj [])]\<close>
    by (simp add: event_of_def sample_parse_def js_def)
  from delimited_blocks_yield_events[OF h1 h2] e h1 h2 show ?thesis by simp
qed

text \<open>
  Claim C3 as stated also covers a trailing \<open>done\<close> block that end-of-input follows
  without a blank line.  There the loop breaks with the block still in the buffer: one
  valid block and the trailing \<open>done\<close> block give one event, not two.
\<close>

theorem unterminated_complete_block_counterexample:
  \<open>list_all (valid_block sample_parse) ([(js ''thinking'', js ''{"text":"hi"}'')] @ [(js ''done'', js ''{}'')])
   \<and> concat [js ''event: thinking\<newline>data: {"text":"hi"}\<newline>\<newline>event: done\<newline>data: {}'']
       = delimited (map sse_block [(js ''thinking'', js ''{"text":"hi"}'')]) @ sse_block (js ''done'', js ''{}'')
   \<and> yielded (summarizeStream sample_parse (Body [js ''event: thinking\<newline>data: {"text":"hi"}\<newline>\<newline>event: done\<newline>data: {}''] None))
       = [Thinking (JStr (js ''hi''))]
   \<and> length (yielded (summarizeStream sample_parse (Body [js ''event: thinking\<newline>data: {"text":"hi"}\<newline>\<newline>event: done\<newline>data: {}''] None)))
       \<noteq> length [(js ''thinking'', js ''{"text":"hi"}'')] + 1\<close>
  by code_simp

text \<open>
  Claim C8.  In a stream of delimited blocks, a block whose data line does not decode
  emits the \<open>console.warn\<close> diagnostic and nothing else: what the generator emits is what
  it emits for the blocks before, then the diagnostic, then what it emits for the blocks
  after, so the events yielded are those of the stream without the block.  No exception
  leaves the generator: the failed decoding is the \<open>None\<close> of the parameter, handled in
  \<open>process_event\<close>.
\<close>

theorem undecodable_block_dropped:
  assumes "list_all blank_free (pre @ [b] @ post)"
      and "trim b \<noteq> []" and "snd (block_fields b) \<noteq> []" and "parse (snd (block_fields b)) = None"
      and "concat chunks = delimited (pre @ [b] @ post)"
  shows "summarizeStream parse (Body chunks None)
           = summarizeStream parse (Body [delimited pre] None) @ [Warn SSE (snd (block_fields b))]
               @ summarizeStream parse (Body [delimited post] None)
       \<and> yielded (summarizeStream parse (Body chunks None))
           = yielded (summarizeStream parse (Body [delimited pre] None)) @ yielded (summarizeStream parse (Body [delimited post] None))
       \<and> generateScriptStream parse (Body chunks None)
           = generateScriptStream parse (Body [delimited pre] None) @ [Warn SSE_Script (snd (block_fields b))]
               @ generateScriptStream parse (Body [delimited post] None)
       \<and> yielded (generateScriptStream parse (Body chunks None))
           = yielded (generateScriptStream parse (Body [delimited pre] None))
               @ yielded (generateScriptStream parse (Body [delimited post] None))"
proof -
  have pre: "list_all blank_free pre" and post: "list_all blank_free post"
    using assms(1) by simp_all
  have b: "\<And>tag. process_event parse tag b = [Warn tag (snd (block_fields b))]"
    using assms(2-4) by (simp add: process_event_def Let_def)
  have all: "\<And>tag. read_loop parse tag [] chunks
      = concat (map (process_event parse tag) pre) @ [Warn tag (snd (block_fields b))]
          @ concat (map (process_event parse tag) post)"
    using read_loop_blocks[OF assms(1) assms(5)] b by simp
  have p1: "\<And>tag. read_loop parse tag [] [delimited pre] = concat (map (process_event parse tag) pre)"
    using read_loop_blocks[OF pre, of "[delimited pre]"] by simp
  have p2: "\<And>tag. read_loop parse tag [] [delimited post] = concat (map (process_event parse tag) post)"
    using read_loop_blocks[OF post, of "[delimited post]"] by simp
  show ?thesis
    unfolding summarizeStream_body generateScriptStream_body all p1 p2
    by (simp add: yielded_append)
qed

theorem undecodable_block_dropped_witness:
  \<open>list_all blank_free ([sse_block (js ''thinking'', js ''{"text":"hi"}'')] @ [sse_block (js ''content'', js ''{oops'')]
       @ [sse_block (js ''done'', js ''{}'')])
   \<and> sample_parse (snd (block_fields (sse_block (js ''content'', js ''{oops'')))) = None
   \<and> summarizeStream sample_parse
        (Body [js ''event: thinking\<newline>data: {"text":"hi"}\<newline>\<newline>event: content\<newline>da'',
         js ''ta: {oops\<newline>\<newline>event: done\<newline>data: {}\<newline>\<newline>''] None)
      = [Yield (Thinking (JStr (js ''hi''))), Warn SSE (js ''{oops''), Yield (Done (JObj []))]\<close>
proof -
  let ?pre = \<open>[sse_block (js ''thinking'', js ''{"text":"hi"}'')]\<close>
  let ?b = \<open>sse_block (js ''content'', js ''{oops'')\<close>
  let ?post = \<open>[sse_block (js ''done'', js ''{}'')]\<close>
  let ?chunks = \<open>[js ''event: thinking\<newline>data: {"text":"hi"}\<newline>\<newline>event: content\<newline>da'',
         js ''ta: {oops\<newline>\<newline>event: done\<newline>data: {}\<newline>\<newline>'']\<close>
  have h1: "list_all blank_free (?pre @ [?b] @ ?post)" by code_simp
  have h2: "trim ?b \<noteq> []" by (rule trim_sse)
  have f: "block_fields ?b = (js ''content'', js ''{oops'')"
    by (rule block_fields_sse) (simp_all add: js_def)
  have h3: "snd (block_fields ?b) \<noteq> []" unfolding f by (simp add: js_def)
  have h4: "sample_parse (snd (block_fields ?b)) = None" unfolding f by (simp add: sample_parse_def js_def)
  have h5: "concat ?chunks = delimited (?pre @ [?b] @ ?post)" by (simp add: delimited_def sse_block_def js_def)
  have p1: "summarizeStream sample_parse (Body [delimited ?pre] None) = [Yield (Thinking (JStr (js ''hi'')))]" by code_simp
  have p2: "summarizeStream sample_parse (Body [delimited ?post] None) = [Yield (Done (JObj []))]" by code_simp
  from undecodable_block_dropped[where pre="?pre" and b="?b" and post="?post" and parse=sample_parse
         and chunks="?chunks", OF h1 h2 h3 h4 h5] h1 h4 show ?thesis
    by (simp add: p1 p2 f)
qed

section \<open>Properties of the tracks and of the orchestrator\<close>

lemmas track_defs = summary_pull_def script_pull_def summarizeStreamWithCallbacks_def
  generateScriptStreamWithCallbacks_def call_def summary_callbacks_def script_callbacks_def
  checkAllDone_def catch_handler_def Let_def

lemma pending_iff: "c \<in> fst ` set xs \<longleftrightarrow> map_of xs c \<noteq> None"
  by (simp add: map_of_eq_None_iff)

text \<open>
  What the wrappers do by design: once the controller is aborted, an event that the
  stream still delivers reaches no callback and ends the loop.
\<close>

lemma aborted_event_is_noop: "consume dflt cbs True (Next ev) st = (st, False)"
  by simp

lemma handleSubmit_aborts_refs:
  "abortControllerRef s = Some c \<Longrightarrow> scriptAbortControllerRef s = Some d \<Longrightarrow>
   c \<in> set (abortedSummary (handleSubmit u s)) \<and> d \<in> set (abortedScript (handleSubmit u s))"
  by (simp add: handleSubmit_def)

lemma aborted_track_event_ignored:
  "r \<in> set (abortedSummary s) \<Longrightarrow>
   step (SummaryPull r (Next ev)) s = s \<or>
   step (SummaryPull r (Next ev)) s = s\<lparr>summaryReading := removeAll r (summaryReading s)\<rparr>"
  by (simp add: track_defs)

text \<open>
  Claim C2 at the input where the code departs from it.  The abort flag is read only at
  the head of the loop body; the \<open>catch\<close> does not read it.  So an error that the stream
  raises after the abort still invokes \<open>onError\<close>, in both wrappers.  In the component:
  once both tracks of a run have delivered their \<open>done\<close> event the status is \<open>done\<close> and
  the header accepts a new submission; it aborts the first run's controllers, and a
  network error of the first run's summary stream, still open, then sets the summarize
  error and the status \<open>done\<close> while the new run is crawling.
\<close>

theorem error_after_abort_invokes_onError:
  "summarizeStreamWithCallbacks recording True (Raise (ErrorObj (js ''network error''))) []
     = ([OnError (JStr (js ''network error''))], False)
   \<and> generateScriptStreamWithCallbacks recording True (Raise (ErrorObj (js ''network error''))) []
     = ([OnError (JStr (js ''network error''))], False)
   \<and> (let s = run_events [Submit (js ''https://a.example/1''), CrawlResolved 0 crawled_x,
                          SummaryPull 0 (Next (Done summary_1)), ScriptPull 0 (Next (Done script_1)),
                          Submit (js ''https://a.example/2'')] initial
      in 0 \<in> set (abortedSummary s) \<and> 0 \<in> set (summaryReading s)
         \<and> status s = Crawling \<and> error s = None)
   \<and> (let s = run_events [Submit (js ''https://a.example/1''), CrawlResolved 0 crawled_x,
                          SummaryPull 0 (Next (Done summary_1)), ScriptPull 0 (Next (Done script_1)),
                          Submit (js ''https://a.example/2''),
                          SummaryPull 0 (Raise (ErrorObj (js ''network error'')))] initial
      in crawling s = [(1, js ''https://a.example/2'')] \<and> status s = StatusDone
         \<and> error s = Some (Summarize, JStr (js ''network error'')))"
proof -
  have a: "summarizeStreamWithCallbacks recording True (Raise (ErrorObj (js ''network error''))) []
     = ([OnError (JStr (js ''network error''))], False)
   \<and> generateScriptStreamWithCallbacks recording True (Raise (ErrorObj (js ''network error''))) []
     = ([OnError (JStr (js ''network error''))], False)"
  by (simp add: summarizeStreamWithCallbacks_def generateScriptStreamWithCallbacks_def
        catch_handler_def call_def recording_def)
  have b: "let s = run_events [Submit (js ''https://a.example/1''), CrawlResolved 0 crawled_x,
                          SummaryPull 0 (Next (Done summary_1)), ScriptPull 0 (Next (Done script_1)),
                          Submit (js ''https://a.example/2'')] initial
      in 0 \<in> set (abortedSummary s) \<and> 0 \<in> set (summaryReading s)
         \<and> status s = Crawling \<and> error s = None"
    by code_simp
  have c: "let s = run_events [Submit (js ''https://a.example/1''), CrawlResolved 0 crawled_x,
                          SummaryPull 0 (Next (Done summary_1)), ScriptPull 0 (Next (Done script_1)),
                          Submit (js ''https://a.example/2''),
                          SummaryPull 0 (Raise (ErrorObj (js ''network error'')))] initial
      in crawling s = [(1, js ''https://a.example/2'')] \<and> status s = StatusDone
         \<and> error s = Some (Summarize, JStr (js ''network error''))"
    by code_simp
  from a b c show ?thesis by blast
qed

text \<open>
  Claim C1 at the input where the code departs from it.  When both tracks of the first
  run have delivered their \<open>done\<close> event, its synthesis is in flight and the status is
  \<open>done\<close>, so the header accepts a second submission although the run has not settled.
  The submission aborts the two stream controllers and resets the state, but the
  continuation of the first run's \<open>onDone\<close> after \<open>await synthesizeAudio(...)\<close> is not
  guarded: when the first run's synthesis settles, the audio state of the new run, just
  reset, is set from the first run's result.
\<close>

theorem superseded_synthesis_changes_state:
  "(let s = run_events [Submit (js ''https://a.example/1''), CrawlResolved 0 crawled_x,
                        SummaryPull 0 (Next (Done summary_1)),
                        ScriptPull 0 (Next (Done script_1))] initial
    in status s = StatusDone \<and> \<not> isLoading s \<and> audioStatus s = Synthesizing
       \<and> synthesizing s = [(0, script_1)])
   \<and> (let s = run_events [Submit (js ''https://a.example/1''), CrawlResolved 0 crawled_x,
                        SummaryPull 0 (Next (Done summary_1)),
                        ScriptPull 0 (Next (Done script_1)),
                        Submit (js ''https://a.example/2'')] initial
    in status s = Crawling \<and> audioStatus s = AudioIdle \<and> audioUrl s = None
       \<and> synthesizeData s = JNull \<and> scriptData s = JNull
       \<and> crawling s = [(1, js ''https://a.example/2'')]
       \<and> 0 \<in> set (abortedSummary s) \<and> 0 \<in> set (abortedScript s))
   \<and> (let s = run_events [Submit (js ''https://a.example/1''), CrawlResolved 0 crawled_x,
                        SummaryPull 0 (Next (Done summary_1)),
                        ScriptPull 0 (Next (Done script_1)),
                        Submit (js ''https://a.example/2''),
                        SynthResolved 0 tts_1] initial
    in status s = Crawling \<and> audioStatus s = Ready
       \<and> audioUrl s = Some (js ''http://localhost:8000/api/v1/audio/topic_1.mp3?user_id=default'')
       \<and> synthesizeData s = tts_1 \<and> crawling s = [(1, js ''https://a.example/2'')])"
proof -
  have a: "let s = run_events [Submit (js ''https://a.example/1''), CrawlResolved 0 crawled_x,
                        SummaryPull 0 (Next (Done summary_1)),
                        ScriptPull 0 (Next (Done script_1))] initial
    in status s = StatusDone \<and> \<not> isLoading s \<and> audioStatus s = Synthesizing
       \<and> synthesizing s = [(0, script_1)]"
    by code_simp
  have b: "let s = run_events [Submit (js ''https://a.example/1''), CrawlResolved 0 crawled_x,
                        SummaryPull 0 (Next (Done summary_1)),
                        ScriptPull 0 (Next (Done script_1)),
                        Submit (js ''https://a.example/2'')] initial
    in status s = Crawling \<and> audioStatus s = AudioIdle \<and> audioUrl s = None
       \<and> synthesizeData s = JNull \<and> scriptData s = JNull
       \<and> crawling s = [(1, js ''https://a.example/2'')]
       \<and> 0 \<in> set (abortedSummary s) \<and> 0 \<in> set (abortedScript s)"
    by code_simp
  have c: "let s = run_events [Submit (js ''https://a.example/1''), CrawlResolved 0 crawled_x,
                        SummaryPull 0 (Next (Done summary_1)),
                        ScriptPull 0 (Next (Done script_1)),
                        Submit (js ''https://a.example/2''),
                        SynthResolved 0 tts_1] initial
    in status s = Crawling \<and> audioStatus s = Ready
       \<and> audioUrl s = Some (js ''http://localhost:8000/api/v1/audio/topic_1.mp3?user_id=default'')
       \<and> synthesizeData s = tts_1 \<and> crawling s = [(1, js ''https://a.example/2'')]"
    by code_simp
  from a b c show ?thesis by blast
qed

text \<open>
  Claim C4 as stated fails: no check of the final payload exists.  A \<open>done\<close> payload with
  an empty list of points is yielded as it is, and the summary track is done with it: the
  payload is stored, streaming ends, no error is recorded.
\<close>

theorem done_payload_not_validated_counterexample:
  \<open>\<not> summary_result_ok no_points
   \<and> yielded (summarizeStream sample_parse (Body [js ''event: done\<newline>data: {"bullet_points":[]}\<newline>\<newline>''] None))
       = [Done no_points]
   \<and> (let s = run_events [Submit (js ''https://a.example/1''), CrawlResolved 0 crawled_x,
                          SummaryPull 0 (Next (Done no_points))] initial
      in summaryData s = no_points \<and> error s = None \<and> \<not> isStreaming (streaming s)
         \<and> 0 \<in> set (summaryDone s))\<close>
  by code_simp

text \<open>
  Claim C4, as amended.  On a \<open>done\<close> event the final payload is taken over without
  validation: the generators yield whatever the data line decodes to, and the track
  stores that value as its result and is done with it.  For the summary track this holds
  for every payload other than \<open>null\<close>: the payload is stored, streaming ends, the run's
  \<open>summaryDone\<close> is set and no error is recorded.  For the script track it holds for
  every payload: it is stored, streaming ends, \<open>scriptDone\<close> is set, and the audio status
  is \<open>done\<close> or \<open>synthesizing\<close>, never \<open>error\<close>.
\<close>

theorem done_payload_taken_unvalidated:
  "(parse da = Some j \<and> da \<noteq> [] \<and> NL \<notin> set da \<longrightarrow>
      process_event parse tag (sse_block (js ''done'', da)) = [Yield (Done j)])
   \<and> (r \<in> set (summaryReading s) \<and> r \<notin> set (abortedSummary s) \<and> j \<noteq> JNull \<longrightarrow>
      (let s' = step (SummaryPull r (Next (Done j))) s
       in summaryData s' = j \<and> error s' = error s \<and> \<not> isStreaming (streaming s')
          \<and> r \<in> set (summaryDone s')))
   \<and> (r \<in> set (scriptReading s) \<and> r \<notin> set (abortedScript s) \<longrightarrow>
      (let s' = step (ScriptPull r (Next (Done j))) s
       in scriptData s' = j \<and> audioError s' = audioError s \<and> \<not> isStreaming (scriptStreaming s')
          \<and> audioStatus s' \<in> {AudioDone, Synthesizing} \<and> r \<in> set (scriptDone s')))"
proof -
  have a: "parse da = Some j \<and> da \<noteq> [] \<and> NL \<notin> set da \<longrightarrow>
      process_event parse tag (sse_block (js ''done'', da)) = [Yield (Done j)]"
  proof (intro impI, elim conjE)
    assume h: "parse da = Some j" "da \<noteq> []" "NL \<notin> set da"
    then have "valid_block parse (js ''done'', da)" by (simp add: valid_block_def)
    from process_valid[OF this, of tag] h show "process_event parse tag (sse_block (js ''done'', da)) = [Yield (Done j)]"
      by (simp add: event_of_def js_def)
  qed
  have b: "r \<in> set (summaryReading s) \<and> r \<notin> set (abortedSummary s) \<and> j \<noteq> JNull \<longrightarrow>
      (let s' = step (SummaryPull r (Next (Done j))) s
       in summaryData s' = j \<and> error s' = error s \<and> \<not> isStreaming (streaming s')
          \<and> r \<in> set (summaryDone s'))"
    by (simp add: track_defs)
  have c: "r \<in> set (scriptReading s) \<and> r \<notin> set (abortedScript s) \<longrightarrow>
      (let s' = step (ScriptPull r (Next (Done j))) s
       in scriptData s' = j \<and> audioError s' = audioError s \<and> \<not> isStreaming (scriptStreaming s')
          \<and> audioStatus s' \<in> {AudioDone, Synthesizing} \<and> r \<in> set (scriptDone s'))"
    by (simp add: track_defs)
  from a b c show ?thesis by blast
qed

theorem done_payload_taken_unvalidated_witness:
  \<open>sample_parse (js ''{"bullet_points":[]}'') = Some no_points
   \<and> 0 \<in> set (summaryReading (run_events [Submit (js ''https://a.example/1''), CrawlResolved 0 crawled_x] initial))
   \<and> 0 \<in> set (scriptReading (run_events [Submit (js ''https://a.example/1''), CrawlResolved 0 crawled_x] initial))
   \<and> process_event sample_parse SSE (sse_block (js ''done'', js ''{"bullet_points":[]}'')) = [Yield (Done no_points)]
   \<and> summaryData (step (SummaryPull 0 (Next (Done no_points)))
        (run_events [Submit (js ''https://a.example/1''), CrawlResolved 0 crawled_x] initial)) = no_points
   \<and> scriptData (step (ScriptPull 0 (Next (Done no_points)))
        (run_events [Submit (js ''https://a.example/1''), CrawlResolved 0 crawled_x] initial)) = no_points\<close>
proof -
  let ?s = "run_events [Submit (js ''https://a.example/1''), CrawlResolved 0 crawled_x] initial"
  have h1: \<open>sample_parse (js ''{"bullet_points":[]}'') = Some no_points
             \<and> js ''{"bullet_points":[]}'' \<noteq> [] \<and> NL \<notin> set (js ''{"bullet_points":[]}'')\<close>
    by code_simp
  have h2: "0 \<in> set (summaryReading ?s) \<and> 0 \<notin> set (abortedSummary ?s) \<and> no_points \<noteq> JNull"
    by code_simp
  have h3: "0 \<in> set (scriptReading ?s) \<and> 0 \<notin> set (abortedScript ?s)"
    by code_simp
  from done_payload_taken_unvalidated[where parse=sample_parse and da=\<open>js ''{"bullet_points":[]}''\<close>
        and j=no_points and tag=SSE and r=0 and s="?s"] h1 h2 h3
  show ?thesis by (simp add: Let_def)
qed

text \<open>
  Claim C6 as stated fails in two places.  A summary-track error does not change the
  summary's error and streaming state only: through \<open>checkAllDone\<close> it also sets the
  overall status, here from \<open>processing\<close> to \<open>done\<close>, the script being done.  And after a
  synthesis failure the script result is still in the state but the audio card, at the
  audio status \<open>error\<close>, renders its error panel and none of the sections that show the
  script, which it rendered before the failure.
\<close>

theorem failure_frame_counterexample:
  "(let s = run_events [Submit (js ''https://a.example/1''), CrawlResolved 0 crawled_x,
                        ScriptPull 0 (Next (Done script_1))] initial
    in status s = Processing
       \<and> status (step (SummaryPull 0 (Next (Error (JStr (js ''boom''))))) s) = StatusDone
       \<and> scriptData s = script_1 \<and> script_rendered s
       \<and> scriptData (step (SynthRejected 0 (ErrorObj (js ''tts down''))) s) = script_1
       \<and> \<not> script_rendered (step (SynthRejected 0 (ErrorObj (js ''tts down''))) s)
       \<and> error_panel_rendered (step (SynthRejected 0 (ErrorObj (js ''tts down''))) s))"
  by code_simp

text \<open>
  Claim C6, as amended.  A failure of one surface leaves the results of the others as
  they are in the state.  A summary-track error, delivered as an \<open>error\<close> event or raised
  by the stream, changes neither the crawl data nor the summary result nor any script or
  audio state; of the rendered state it changes only the error (set to the summarize
  error), the summary's \<open>isStreaming\<close> flag (cleared) and the overall status, which
  becomes \<open>done\<close> if the run's script track has settled and is unchanged otherwise.  A
  script-track error changes neither the crawl data nor the summary, nor the script
  result.  A synthesis failure sets the audio error and the audio status and nothing
  else: the script result produced before stays in the state, as do all other results.
  A crawl failure changes no result either.
\<close>

theorem failure_leaves_siblings_unchanged:
  "(let s' = step (SummaryPull r (Next (Error msg))) s
    in crawlData s' = crawlData s \<and> summaryData s' = summaryData s \<and> scriptData s' = scriptData s
       \<and> scriptStreaming s' = scriptStreaming s \<and> audioStatus s' = audioStatus s
       \<and> audioError s' = audioError s \<and> synthesizeData s' = synthesizeData s
       \<and> audioUrl s' = audioUrl s
       \<and> thinking (streaming s') = thinking (streaming s)
       \<and> content (streaming s') = content (streaming s)
       \<and> currentThinkingTitle (streaming s') = currentThinkingTitle (streaming s)
       \<and> currentThinkingContent (streaming s') = currentThinkingContent (streaming s)
       \<and> (r \<in> set (summaryReading s) \<and> r \<notin> set (abortedSummary s) \<longrightarrow>
            error s' = Some (Summarize, msg) \<and> \<not> isStreaming (streaming s')
            \<and> status s' = (if r \<in> set (scriptDone s) then StatusDone else status s))
       \<and> (\<not> (r \<in> set (summaryReading s) \<and> r \<notin> set (abortedSummary s)) \<longrightarrow>
            error s' = error s \<and> streaming s' = streaming s \<and> status s' = status s))
   \<and> (let s' = step (SummaryPull r (Raise err)) s
    in crawlData s' = crawlData s \<and> summaryData s' = summaryData s \<and> scriptData s' = scriptData s
       \<and> scriptStreaming s' = scriptStreaming s \<and> audioStatus s' = audioStatus s
       \<and> audioError s' = audioError s \<and> synthesizeData s' = synthesizeData s
       \<and> audioUrl s' = audioUrl s
       \<and> thinking (streaming s') = thinking (streaming s)
       \<and> content (streaming s') = content (streaming s)
       \<and> currentThinkingTitle (streaming s') = currentThinkingTitle (streaming s)
       \<and> currentThinkingContent (streaming s') = currentThinkingContent (streaming s)
       \<and> (r \<in> set (summaryReading s) \<longrightarrow>
            error s' = Some (Summarize, message_of streaming_error err)
            \<and> \<not> isStreaming (streaming s')
            \<and> status s' = (if r \<in> set (scriptDone s) then StatusDone else status s))
       \<and> (r \<notin> set (summaryReading s) \<longrightarrow>
            error s' = error s \<and> streaming s' = streaming s \<and> status s' = status s))
   \<and> (let s' = step (ScriptPull r (Next (Error msg))) s
    in crawlData s' = crawlData s \<and> summaryData s' = summaryData s \<and> error s' = error s
       \<and> streaming s' = streaming s \<and> scriptData s' = scriptData s
       \<and> synthesizeData s' = synthesizeData s \<and> audioUrl s' = audioUrl s
       \<and> (r \<in> set (scriptReading s) \<and> r \<notin> set (abortedScript s) \<longrightarrow>
            audioError s' = msg \<and> audioStatus s' = AudioError
            \<and> \<not> isStreaming (scriptStreaming s')
            \<and> status s' = (if r \<in> set (summaryDone s) then StatusDone else status s)))
   \<and> (let s' = step (SynthRejected c err) s
    in status s' = status s \<and> error s' = error s \<and> crawlData s' = crawlData s
       \<and> summaryData s' = summaryData s \<and> scriptData s' = scriptData s
       \<and> synthesizeData s' = synthesizeData s \<and> audioUrl s' = audioUrl s
       \<and> streaming s' = streaming s \<and> scriptStreaming s' = scriptStreaming s
       \<and> (c \<in> fst ` set (synthesizing s) \<longrightarrow>
            audioStatus s' = AudioError \<and> audioError s' = message_of tts_failed err)
       \<and> (c \<notin> fst ` set (synthesizing s) \<longrightarrow>
            audioStatus s' = audioStatus s \<and> audioError s' = audioError s))
   \<and> (let s' = step (CrawlRejected r err) s
    in crawlData s' = crawlData s \<and> summaryData s' = summaryData s \<and> scriptData s' = scriptData s
       \<and> synthesizeData s' = synthesizeData s \<and> audioUrl s' = audioUrl s
       \<and> audioStatus s' = audioStatus s \<and> audioError s' = audioError s
       \<and> streaming s' = streaming s \<and> scriptStreaming s' = scriptStreaming s
       \<and> (r \<in> fst ` set (crawling s) \<longrightarrow>
            status s' = StatusError \<and> error s' = Some (Crawl, message_of unknown_error_occurred err)))"
proof -
  have a: "let s' = step (SummaryPull r (Next (Error msg))) s
    in crawlData s' = crawlData s \<and> summaryData s' = summaryData s \<and> scriptData s' = scriptData s
       \<and> scriptStreaming s' = scriptStreaming s \<and> audioStatus s' = audioStatus s
       \<and> audioError s' = audioError s \<and> synthesizeData s' = synthesizeData s
       \<and> audioUrl s' = audioUrl s
       \<and> thinking (streaming s') = thinking (streaming s)
       \<and> content (streaming s') = content (streaming s)
       \<and> currentThinkingTitle (streaming s') = currentThinkingTitle (streaming s)
       \<and> currentThinkingContent (streaming s') = currentThinkingContent (streaming s)
       \<and> (r \<in> set (summaryReading s) \<and> r \<notin> set (abortedSummary s) \<longrightarrow>
            error s' = Some (Summarize, msg) \<and> \<not> isStreaming (streaming s')
            \<and> status s' = (if r \<in> set (scriptDone s) then StatusDone else status s))
       \<and> (\<not> (r \<in> set (summaryReading s) \<and> r \<notin> set (abortedSummary s)) \<longrightarrow>
            error s' = error s \<and> streaming s' = streaming s \<and> status s' = status s)"
    by (simp add: track_defs)
  have b: "let s' = step (SummaryPull r (Raise err)) s
    in crawlData s' = crawlData s \<and> summaryData s' = summaryData s \<and> scriptData s' = scriptData s
       \<and> scriptStreaming s' = scriptStreaming s \<and> audioStatus s' = audioStatus s
       \<and> audioError s' = audioError s \<and> synthesizeData s' = synthesizeData s
       \<and> audioUrl s' = audioUrl s
       \<and> thinking (streaming s') = thinking (streaming s)
       \<and> content (streaming s') = content (streaming s)
       \<and> currentThinkingTitle (streaming s') = currentThinkingTitle (streaming s)
       \<and> currentThinkingContent (streaming s') = currentThinkingContent (streaming s)
       \<and> (r \<in> set (summaryReading s) \<longrightarrow>
            error s' = Some (Summarize, message_of streaming_error err)
            \<and> \<not> isStreaming (streaming s')
            \<and> status s' = (if r \<in> set (scriptDone s) then StatusDone else status s))
       \<and> (r \<notin> set (summaryReading s) \<longrightarrow>
            error s' = error s \<and> streaming s' = streaming s \<and> status s' = status s)"
    by (simp add: track_defs message_of_def)
  have c: "let s' = step (ScriptPull r (Next (Error msg))) s
    in crawlData s' = crawlData s \<and> summaryData s' = summaryData s \<and> error s' = error s
       \<and> streaming s' = streaming s \<and> scriptData s' = scriptData s
       \<and> synthesizeData s' = synthesizeData s \<and> audioUrl s' = audioUrl s
       \<and> (r \<in> set (scriptReading s) \<and> r \<notin> set (abortedScript s) \<longrightarrow>
            audioError s' = msg \<and> audioStatus s' = AudioError
            \<and> \<not> isStreaming (scriptStreaming s')
            \<and> status s' = (if r \<in> set (summaryDone s) then StatusDone else status s))"
    by (simp add: track_defs)
  have d: "let s' = step (SynthRejected c err) s
    in status s' = status s \<and> error s' = error s \<and> crawlData s' = crawlData s
       \<and> summaryData s' = summaryData s \<and> scriptData s' = scriptData s
       \<and> synthesizeData s' = synthesizeData s \<and> audioUrl s' = audioUrl s
       \<and> streaming s' = streaming s \<and> scriptStreaming s' = scriptStreaming s
       \<and> (c \<in> fst ` set (synthesizing s) \<longrightarrow>
            audioStatus s' = AudioError \<and> audioError s' = message_of tts_failed err)
       \<and> (c \<notin> fst ` set (synthesizing s) \<longrightarrow>
            audioStatus s' = audioStatus s \<and> audioError s' = audioError s)"
    by (auto simp: onDone_catch_def Let_def pending_iff split: option.splits)
  have e: "let s' = step (CrawlRejected r err) s
    in crawlData s' = crawlData s \<and> summaryData s' = summaryData s \<and> scriptData s' = scriptData s
       \<and> synthesizeData s' = synthesizeData s \<and> audioUrl s' = audioUrl s
       \<and> audioStatus s' = audioStatus s \<and> audioError s' = audioError s
       \<and> streaming s' = streaming s \<and> scriptStreaming s' = scriptStreaming s
       \<and> (r \<in> fst ` set (crawling s) \<longrightarrow>
            status s' = StatusError \<and> error s' = Some (Crawl, message_of unknown_error_occurred err))"
    by (simp add: handleSubmit_catch_def)
  from a b c d e show ?thesis by (intro conjI)
qed

theorem failure_leaves_siblings_unchanged_witness:
  "(let s = run_events [Submit (js ''https://a.example/1''), CrawlResolved 0 crawled_x,
                        ScriptPull 0 (Next (Done script_1))] initial
    in 0 \<in> set (summaryReading s) \<and> 0 \<notin> set (abortedSummary s) \<and> 0 \<in> fst ` set (synthesizing s)
       \<and> 0 \<in> set (scriptDone s)
       \<and> scriptData s = script_1 \<and> crawlData s = crawled_x
       \<and> scriptData (step (SummaryPull 0 (Next (Error (JStr (js ''boom''))))) s) = script_1
       \<and> crawlData (step (SummaryPull 0 (Next (Error (JStr (js ''boom''))))) s) = crawled_x
       \<and> error (step (SummaryPull 0 (Next (Error (JStr (js ''boom''))))) s) = Some (Summarize, JStr (js ''boom''))
       \<and> status (step (SummaryPull 0 (Next (Error (JStr (js ''boom''))))) s) = StatusDone
       \<and> scriptData (step (SynthRejected 0 (ErrorObj (js ''tts down''))) s) = script_1
       \<and> audioStatus (step (SynthRejected 0 (ErrorObj (js ''tts down''))) s) = AudioError
       \<and> audioError (step (SynthRejected 0 (ErrorObj (js ''tts down''))) s) = JStr (js ''tts down''))"
proof -
  let ?s = "run_events [Submit (js ''https://a.example/1''), CrawlResolved 0 crawled_x,
                        ScriptPull 0 (Next (Done script_1))] initial"
  have h: "0 \<in> set (summaryReading ?s) \<and> 0 \<notin> set (abortedSummary ?s) \<and> 0 \<in> fst ` set (synthesizing ?s)
       \<and> 0 \<in> set (scriptDone ?s)
       \<and> scriptData ?s = script_1 \<and> crawlData ?s = crawled_x"
    by code_simp
  from failure_leaves_siblings_unchanged[of 0 "JStr (js ''boom'')" ?s "ErrorObj (js ''tts down'')" 0] h
  show ?thesis by (simp add: Let_def message_of_def)
qed

section \<open>Properties of the reasoning parser\<close>

lemma split_think_ne [simp]: "split_think s \<noteq> []"
  by (induction s rule: split_think.induct) auto

lemma split_think_single: "split_think s = [x] \<Longrightarrow> x = s"
proof (induction s arbitrary: x rule: split_think.induct)
  case 1
  then show ?case by simp
next
  case (2 c cs)
  show ?case
  proof (cases "prefix [NL, NL, STAR, STAR] (c # cs)")
    case True
    with 2(3) show ?thesis by simp
  next
    case False
    with 2(3) obtain y where y: "split_think cs = [y]" "x = c # y"
      by (cases "split_think cs") (auto split: if_splits list.splits elim: cons_first.elims)
    with 2(2)[OF False y(1)] show ?thesis by simp
  qed
qed

lemma split_think_short: "length s < 4 \<Longrightarrow> split_think s = [s]"
proof (induction s rule: split_think.induct)
  case 1
  then show ?case by simp
next
  case (2 c cs)
  have np: "\<not> prefix [NL, NL, STAR, STAR] (c # cs)"
    using 2(3) by (auto dest: prefix_length_le)
  with 2 show ?case by simp
qed

lemma split_think_append_same:
  "length (split_think (a @ b)) = length (split_think a) \<Longrightarrow>
   last (split_think (a @ b)) = last (split_think a) @ b"
proof (induction a rule: split_think.induct)
  case 1
  then have "length (split_think b) = 1" by simp
  then obtain x where "split_think b = [x]" by (cases "split_think b") auto
  then show ?case using split_think_single by fastforce
next
  case (2 c cs)
  show ?case
  proof (cases "prefix [NL, NL, STAR, STAR] (c # cs)")
    case True
    then have t2: "prefix [NL, NL, STAR, STAR] (c # cs @ b)" by (metis append_Cons prefix_prefix)
    from True have ne: "cs \<noteq> []" by auto
    have e1: "split_think (c # cs) = [] # split_think (tl cs)" using True by (simp del: Cons_prefix_Cons)
    have e2: "split_think ((c # cs) @ b) = [] # split_think (tl cs @ b)" using t2 ne by (simp del: Cons_prefix_Cons)
    from 2(3) e1 e2 have "length (split_think (tl cs @ b)) = length (split_think (tl cs))" by simp
    from 2(1)[OF True this] e1 e2 show ?thesis by simp
  next
    case False
    have e1: "split_think (c # cs) = cons_first c (split_think cs)" using False by (simp del: Cons_prefix_Cons)
    show ?thesis
    proof (cases "prefix [NL, NL, STAR, STAR] (c # cs @ b)")
      case True
      have "length (c # cs) < 4"
      proof (rule ccontr)
        assume "\<not> length (c # cs) < 4"
        then have "length [NL, NL, STAR, STAR] \<le> length (c # cs)" by simp
        with True have "prefix [NL, NL, STAR, STAR] (c # cs)"
          by (metis append_Cons prefix_length_prefix prefixI)
        with False show False by simp
      qed
      then have "length cs < 4" by simp
      then have "split_think cs = [cs]" by (rule split_think_short)
      with e1 have l1: "length (split_think (c # cs)) = 1" by simp
      have "split_think ((c # cs) @ b) = [] # split_think (tl (cs @ b))" using True by (simp del: Cons_prefix_Cons)
      then have "length (split_think ((c # cs) @ b)) \<ge> 2"
        by (simp add: Suc_le_eq)
      with l1 2(3) show ?thesis by simp
    next
      case nb: False
      have e2: "split_think ((c # cs) @ b) = cons_first c (split_think (cs @ b))" using nb by (simp del: Cons_prefix_Cons)
      have len: "length (split_think (cs @ b)) = length (split_think cs)"
        using 2(3) e1 e2 by (cases "split_think (cs @ b)"; cases "split_think cs") auto
      note IH = 2(2)[OF False len]
      show ?thesis
      proof (cases "split_think cs")
        case Nil
        then show ?thesis by simp
      next
        case (Cons y ys)
        show ?thesis
        proof (cases ys)
          case Nil
          with Cons have y: "y = cs" using split_think_single by blast
          from Nil Cons len obtain z where z: "split_think (cs @ b) = [z]"
            by (cases "split_think (cs @ b)") auto
          then have "z = cs @ b" using split_think_single by blast
          with z y Nil Cons e1 e2 show ?thesis by simp
        next
          case (Cons z zs)
          with \<open>split_think cs = y # ys\<close> len obtain y' z' zs' where "split_think (cs @ b) = y' # z' # zs'"
            by (cases "split_think (cs @ b)"; cases "tl (split_think (cs @ b))") auto
          with Cons \<open>split_think cs = y # ys\<close> IH e1 e2 show ?thesis by simp
        qed
      qed
    qed
  qed
qed

lemma no_boundary_single: "boundaries s = 0 \<Longrightarrow> split_think s = [s]"
proof (induction s)
  case Nil
  then show ?case by simp
next
  case (Cons c cs)
  then have "\<not> prefix [NL, NL, STAR, STAR] (c # cs)" "split_think cs = [cs]"
    by (simp_all del: Cons_prefix_Cons split: if_splits)
  then show ?case by (simp del: Cons_prefix_Cons)
qed

lemma last_cons_first: "X \<noteq> [] \<Longrightarrow> last (cons_first c X) = (if length X = 1 then c # last X else last X)"
  by (cases X; cases "tl X") auto

lemma split_think_after_boundary:
  "prefix [STAR, STAR] b \<Longrightarrow> boundaries b = 0 \<Longrightarrow> last (split_think (pre @ [NL, NL] @ b)) = b"
proof (induction "length pre" arbitrary: pre rule: less_induct)
  case less
  obtain r where b: "b = STAR # STAR # r" using less(2) by (cases b; cases "tl b") auto
  show ?case
  proof (cases pre)
    case Nil
    have "split_think ([NL, NL] @ b) = [] # split_think b" unfolding b by simp
    with Nil no_boundary_single[OF less(3)] show ?thesis by simp
  next
    case (Cons c cs)
    show ?thesis
    proof (cases "prefix [NL, NL, STAR, STAR] (c # cs @ [NL, NL] @ b)")
      case True
      then obtain cs' where cs: "cs = NL # cs'" "c = NL" unfolding b by (cases cs) auto
      have "split_think (c # (cs @ [NL, NL] @ b)) = [] # split_think (tl (cs @ [NL, NL] @ b))"
        using True by (simp del: Cons_prefix_Cons)
      then have "split_think (pre @ [NL, NL] @ b) = [] # split_think (cs' @ [NL, NL] @ b)"
        unfolding Cons cs by simp
      moreover have "length cs' < length pre" using Cons cs by simp
      ultimately show ?thesis using less(1)[of cs', OF _ less(2,3)] by simp
    next
      case False
      then have e: "split_think (pre @ [NL, NL] @ b) = cons_first c (split_think (cs @ [NL, NL] @ b))"
        unfolding Cons by (simp del: Cons_prefix_Cons)
      have IH: "last (split_think (cs @ [NL, NL] @ b)) = b"
        using less(1)[of cs, OF _ less(2,3)] Cons by simp
      have "length (split_think (cs @ [NL, NL] @ b)) \<noteq> 1"
      proof
        assume "length (split_think (cs @ [NL, NL] @ b)) = 1"
        then obtain x where x: "split_think (cs @ [NL, NL] @ b) = [x]"
          by (cases "split_think (cs @ [NL, NL] @ b)") auto
        then have "x = cs @ [NL, NL] @ b" by (rule split_think_single)
        with x IH show False by simp
      qed
      with e IH show ?thesis by (simp add: last_cons_first)
    qed
  qed
qed

lemma shortest_single: "shortest [c]"
  by (simp add: shortest_def)

lemma shortest_Cons:
  assumes "t \<noteq> []"
  shows "shortest (c # t) \<longleftrightarrow> \<not> prefix [STAR, STAR] (t @ [STAR, STAR]) \<and> shortest t"
proof -
  have n: "0 < length t" using assms by simp
  have "[1..<Suc (length t)] = 1 # [Suc 1..<Suc (length t)]"
    using n by (subst upt_conv_Cons) auto
  moreover have "map Suc [1..<length t] = [Suc 1..<Suc (length t)]"
    by (simp only: map_Suc_upt)
  ultimately have eq: "[1..<length (c # t)] = 1 # map Suc [1..<length t]"
    by simp
  have "shortest (c # t)
          = list_all (\<lambda>k. \<not> prefix [STAR, STAR] (drop k ((c # t) @ [STAR, STAR]))) (1 # map Suc [1..<length t])"
    by (simp only: shortest_def eq)
  also have "\<dots> = (\<not> prefix [STAR, STAR] (drop 1 ((c # t) @ [STAR, STAR]))
          \<and> list_all (\<lambda>k. \<not> prefix [STAR, STAR] (drop (Suc k) ((c # t) @ [STAR, STAR]))) [1..<length t])"
    by (simp only: list.pred_inject list.pred_map comp_def)
  also have "\<dots> = (\<not> prefix [STAR, STAR] (t @ [STAR, STAR]) \<and> shortest t)"
    by (simp add: shortest_def del: Cons_prefix_Cons)
  finally show ?thesis .
qed

lemma lazy_until_stars_iff:
  "lazy_until_stars s = Some t \<longleftrightarrow>
     t \<noteq> [] \<and> prefix (t @ [STAR, STAR]) s \<and> list_all (\<lambda>c. \<not> is_line_terminator c) t \<and> shortest t"
proof (induction s arbitrary: t)
  case Nil
  then show ?case by auto
next
  case (Cons c cs)
  show ?case
  proof
    assume l: "lazy_until_stars (c # cs) = Some t"
    then have nlt: "\<not> is_line_terminator c" by (auto split: if_splits)
    show "t \<noteq> [] \<and> prefix (t @ [STAR, STAR]) (c # cs) \<and> list_all (\<lambda>c. \<not> is_line_terminator c) t \<and> shortest t"
    proof (cases "prefix [STAR, STAR] cs")
      case True
      with l nlt have "t = [c]" by (simp del: Cons_prefix_Cons)
      with True nlt show ?thesis by (simp add: shortest_single)
    next
      case False
      with l nlt obtain z where z: "lazy_until_stars cs = Some z" "t = c # z"
        by (auto simp del: Cons_prefix_Cons)
      from Cons.IH[of z] z(1) have ih: "z \<noteq> []" "prefix (z @ [STAR, STAR]) cs"
        "list_all (\<lambda>c. \<not> is_line_terminator c) z" "shortest z" by simp_all
      have "\<not> prefix [STAR, STAR] (z @ [STAR, STAR])"
        using False ih(2) prefix_order.trans by blast
      with ih(1,4) have "shortest (c # z)" by (simp add: shortest_Cons del: Cons_prefix_Cons)
      with ih nlt z(2) show ?thesis by simp
    qed
  next
    assume r: "t \<noteq> [] \<and> prefix (t @ [STAR, STAR]) (c # cs) \<and> list_all (\<lambda>c. \<not> is_line_terminator c) t \<and> shortest t"
    then obtain t' where t: "t = c # t'" by (cases t) auto
    with r have nlt: "\<not> is_line_terminator c" and p: "prefix (t' @ [STAR, STAR]) cs"
      and nl: "list_all (\<lambda>c. \<not> is_line_terminator c) t'" by simp_all
    show "lazy_until_stars (c # cs) = Some t"
    proof (cases "t' = []")
      case True
      with p nlt t show ?thesis by (simp del: Cons_prefix_Cons)
    next
      case False
      with r t have s: "\<not> prefix [STAR, STAR] (t' @ [STAR, STAR])" "shortest t'"
        by (simp_all add: shortest_Cons del: Cons_prefix_Cons)
      have np: "\<not> prefix [STAR, STAR] cs"
      proof
        assume a: "prefix [STAR, STAR] cs"
        have "length [STAR, STAR] \<le> length (t' @ [STAR, STAR])" by simp
        with a p have "prefix [STAR, STAR] (t' @ [STAR, STAR])"
          using prefix_length_prefix by blast
        with s(1) show False by simp
      qed
      from Cons.IH[of t'] False p nl s(2) have "lazy_until_stars cs = Some t'" by simp
      with np nlt t show ?thesis by (simp del: Cons_prefix_Cons)
    qed
  qed
qed

lemma lazy_until_stars_append: "lazy_until_stars s = Some t \<Longrightarrow> lazy_until_stars (s @ b) = Some t"
  unfolding lazy_until_stars_iff by (auto intro: prefix_order.trans)

lemma length_cons_first: "X \<noteq> [] \<Longrightarrow> length (cons_first c X) = length X"
  by (cases X) auto

lemma length_split_think: "length (split_think s) = Suc (boundaries s)"
proof (induction s rule: split_think.induct)
  case 1
  then show ?case by simp
next
  case (2 c cs)
  show ?case
  proof (cases "prefix [NL, NL, STAR, STAR] (c # cs)")
    case True
    then obtain r where r: "cs = NL # STAR # STAR # r" "c = NL"
      by (cases cs; cases "tl cs"; cases "tl (tl cs)") auto
    from 2(1)[OF True] r show ?thesis by simp
  next
    case False
    with 2(2)[OF False] show ?thesis by (simp add: length_cons_first del: Cons_prefix_Cons)
  qed
qed

lemma drop_heading: "drop (length t + 4) (a # b # t @ c # d # rest) = rest"
  by (simp add: numeral_eq_Suc)

lemma heading_match_iff: "heading_match b = Some (t, rest) \<longleftrightarrow> heading_of b t rest"
proof
  assume h: "heading_match b = Some (t, rest)"
  then have p: "prefix [STAR, STAR] b" and l: "lazy_until_stars (drop 2 b) = Some t"
    and r: "rest = drop (length t + 4) b"
    by (auto simp: heading_match_def split: if_splits option.splits)
  from p obtain b' where b: "b = [STAR, STAR] @ b'" by (auto simp: prefix_def)
  from l b have "lazy_until_stars b' = Some t" by simp
  then have t: "t \<noteq> []" "prefix (t @ [STAR, STAR]) b'" "list_all (\<lambda>c. \<not> is_line_terminator c) t" "shortest t"
    by (simp_all add: lazy_until_stars_iff)
  from t(2) obtain r' where r': "b' = (t @ [STAR, STAR]) @ r'" by (auto simp: prefix_def)
  from b r r' have "rest = r'" by (simp add: drop_heading)
  with b r' t show "heading_of b t rest" by (simp add: heading_of_def)
next
  assume h: "heading_of b t rest"
  then have b: "b = [STAR, STAR] @ t @ [STAR, STAR] @ rest" by (simp add: heading_of_def)
  have "lazy_until_stars (t @ [STAR, STAR] @ rest) = Some t"
    using h by (simp add: lazy_until_stars_iff heading_of_def)
  then show "heading_match b = Some (t, rest)" unfolding b by (simp add: heading_match_def drop_heading)
qed

lemma heading_match_append:
  "heading_match x = Some (t, r) \<Longrightarrow> heading_match (x @ b) = Some (t, r @ b)"
  unfolding heading_match_iff by (simp add: heading_of_def)

lemma dropWhile_weaker:
  "(\<And>x. Q x \<Longrightarrow> P x) \<Longrightarrow> dropWhile P (dropWhile Q xs) = dropWhile P xs"
  by (induction xs) auto

lemma trim_after_newlines: "trim (dropWhile (\<lambda>c. c = NL) rest) = trim rest"
proof -
  have "dropWhile is_space (dropWhile (\<lambda>c. c = NL) rest) = dropWhile is_space rest"
    by (rule dropWhile_weaker) (simp add: is_space_def)
  then show ?thesis by (simp add: trim_def)
qed

lemma parse_by_heading:
  "buf \<noteq> [] \<Longrightarrow>
   parseLatestThinkBlock buf =
     (case heading_match (last (split_think buf)) of
        None \<Rightarrow> ([], trim (last (split_think buf)))
      | Some (t, rest) \<Rightarrow> (t, trim rest))"
  by (simp add: parseLatestThinkBlock_def Let_def trim_after_newlines split: option.splits)

lemma parse_title:
  "fst (parseLatestThinkBlock buf) =
     (case heading_match (last (split_think buf)) of None \<Rightarrow> [] | Some (t, rest) \<Rightarrow> t)"
  by (cases "buf = []")
     (auto simp: parseLatestThinkBlock_def Let_def heading_match_def split: option.splits)


text \<open>
  Claim C9, as amended.  For a non-empty buffer, \<open>parseLatestThinkBlock\<close> returns the
  heading and the body of the last block, where the blocks are the pieces between the
  heading boundaries: the last block is the text after the last boundary, and the whole
  buffer when there is no boundary.  When the last block starts with a heading, the
  result is that heading together with everything after it, trimmed; when it does not,
  the heading is empty and the body is the last block, trimmed.  So a buffer without
  boundary gives an empty heading only if it does not itself start with a heading, and
  its body is the trimmed buffer.
\<close>

theorem parseLatestThinkBlock_last_block:
  assumes "buf \<noteq> []"
  shows "(boundaries buf = 0 \<longrightarrow> last (split_think buf) = buf)
       \<and> (\<forall>pre b. buf = pre @ [NL, NL] @ b \<and> prefix [STAR, STAR] b \<and> boundaries b = 0
              \<longrightarrow> last (split_think buf) = b)
       \<and> (\<forall>t rest. heading_of (last (split_think buf)) t rest
              \<longrightarrow> parseLatestThinkBlock buf = (t, trim rest))
       \<and> ((\<forall>t rest. \<not> heading_of (last (split_think buf)) t rest)
              \<longrightarrow> parseLatestThinkBlock buf = ([], trim (last (split_think buf))))"
proof (intro conjI allI impI)
  assume "boundaries buf = 0"
  then show "last (split_think buf) = buf" by (simp add: no_boundary_single)
next
  fix pre b
  assume "buf = pre @ [NL, NL] @ b \<and> prefix [STAR, STAR] b \<and> boundaries b = 0"
  then show "last (split_think buf) = b" using split_think_after_boundary by blast
next
  fix t rest
  assume "heading_of (last (split_think buf)) t rest"
  then have "heading_match (last (split_think buf)) = Some (t, rest)" by (simp add: heading_match_iff)
  then show "parseLatestThinkBlock buf = (t, trim rest)" using assms by (simp add: parse_by_heading)
next
  assume "\<forall>t rest. \<not> heading_of (last (split_think buf)) t rest"
  then have "heading_match (last (split_think buf)) = None"
    using heading_match_iff by (cases "heading_match (last (split_think buf))") auto
  then show "parseLatestThinkBlock buf = ([], trim (last (split_think buf)))"
    using assms by (simp add: parse_by_heading)
qed

theorem parseLatestThinkBlock_last_block_witness:
  "js ''**A**\<newline>\<newline>body\<newline>\<newline>**B** x\<newline>\<newline>y '' \<noteq> []
   \<and> js ''**A**\<newline>\<newline>body\<newline>\<newline>**B** x\<newline>\<newline>y '' = js ''**A**\<newline>\<newline>body'' @ [NL, NL] @ js ''**B** x\<newline>\<newline>y ''
   \<and> prefix [STAR, STAR] (js ''**B** x\<newline>\<newline>y '') \<and> boundaries (js ''**B** x\<newline>\<newline>y '') = 0
   \<and> heading_of (js ''**B** x\<newline>\<newline>y '') (js ''B'') (js '' x\<newline>\<newline>y '')
   \<and> parseLatestThinkBlock (js ''**A**\<newline>\<newline>body\<newline>\<newline>**B** x\<newline>\<newline>y '') = (js ''B'', js ''x\<newline>\<newline>y'')"
proof -
  let ?buf = "js ''**A**\<newline>\<newline>body\<newline>\<newline>**B** x\<newline>\<newline>y ''"
  let ?b = "js ''**B** x\<newline>\<newline>y ''"
  have h1: "?buf \<noteq> []" by (simp add: js_def)
  have h2: "?buf = js ''**A**\<newline>\<newline>body'' @ [NL, NL] @ ?b \<and> prefix [STAR, STAR] ?b \<and> boundaries ?b = 0"
    by code_simp
  have h3: "heading_of ?b (js ''B'') (js '' x\<newline>\<newline>y '')" by code_simp
  have tr: "trim (js '' x\<newline>\<newline>y '') = js ''x\<newline>\<newline>y''" by code_simp
  note T = parseLatestThinkBlock_last_block[OF h1]
  from T h2 have l: "last (split_think ?buf) = ?b" by blast
  from T h3 l have "parseLatestThinkBlock ?buf = (js ''B'', trim (js '' x\<newline>\<newline>y ''))" by simp
  with h1 h2 h3 tr show ?thesis by simp
qed


text \<open>
  Claim C9 as stated says that a buffer without heading boundary gives the empty heading
  and the whole buffer as body.  A buffer that is one block with a heading has no
  boundary, and its heading is returned.
\<close>

theorem heading_without_boundary_counterexample:
  "boundaries (js ''**T**\<newline>\<newline>body'') = 0
   \<and> parseLatestThinkBlock (js ''**T**\<newline>\<newline>body'') = (js ''T'', js ''body'')
   \<and> parseLatestThinkBlock (js ''**T**\<newline>\<newline>body'') \<noteq> ([], js ''**T**\<newline>\<newline>body'')"
  by code_simp


text \<open>
  Claim C7.  The parsers are functions of the buffer alone, so parsing a buffer twice
  gives equal results.  For \<open>buf1\<close> a strict prefix of \<open>buf2\<close> with no marker newly
  completed between them, that is, with as many heading boundaries in \<open>buf2\<close> as in
  \<open>buf1\<close> and with no heading of the last block closed in \<open>buf2\<close> that was not closed in
  \<open>buf1\<close>, the parsed heading of \<open>buf1\<close> is the parsed heading of \<open>buf2\<close>.
\<close>

theorem think_block_heading_stable:
  assumes "strict_prefix buf1 buf2"
      and "boundaries buf2 = boundaries buf1"
      and "(\<exists>t rest. heading_of (last (split_think buf2)) t rest)
             \<longrightarrow> (\<exists>t rest. heading_of (last (split_think buf1)) t rest)"
  shows "fst (parseLatestThinkBlock buf1) = fst (parseLatestThinkBlock buf2)
       \<and> parseLatestThinkBlock buf = parseLatestThinkBlock buf
       \<and> parseStreamingBulletPoints buf = parseStreamingBulletPoints buf"
proof -
  from assms(1) obtain b where b: "buf2 = buf1 @ b" by (auto simp: strict_prefix_def prefix_def)
  have "length (split_think (buf1 @ b)) = length (split_think buf1)"
    using assms(2) b by (simp add: length_split_think)
  then have l: "last (split_think buf2) = last (split_think buf1) @ b"
    unfolding b by (rule split_think_append_same)
  have "fst (parseLatestThinkBlock buf1) = fst (parseLatestThinkBlock buf2)"
  proof (cases "heading_match (last (split_think buf1))")
    case None
    then have "\<not> (\<exists>t rest. heading_of (last (split_think buf1)) t rest)"
      by (simp add: heading_match_iff[symmetric])
    with assms(3) have "\<not> (\<exists>t rest. heading_of (last (split_think buf2)) t rest)" by blast
    then have "heading_match (last (split_think buf2)) = None"
      by (cases "heading_match (last (split_think buf2))") (auto simp: heading_match_iff)
    with None show ?thesis by (simp add: parse_title)
  next
    case (Some p)
    obtain t r where p: "p = (t, r)" by (cases p)
    from Some p have "heading_match (last (split_think buf2)) = Some (t, r @ b)"
      unfolding l by (simp add: heading_match_append)
    with Some p show ?thesis by (simp add: parse_title)
  qed
  then show ?thesis by simp
qed

theorem think_block_heading_stable_witness:
  "strict_prefix (js ''**A**\<newline>\<newline>bo'') (js ''**A**\<newline>\<newline>body'')
   \<and> boundaries (js ''**A**\<newline>\<newline>body'') = boundaries (js ''**A**\<newline>\<newline>bo'')
   \<and> heading_of (last (split_think (js ''**A**\<newline>\<newline>bo''))) (js ''A'') (js ''\<newline>\<newline>bo'')
   \<and> fst (parseLatestThinkBlock (js ''**A**\<newline>\<newline>bo'')) = fst (parseLatestThinkBlock (js ''**A**\<newline>\<newline>body''))
   \<and> fst (parseLatestThinkBlock (js ''**A**\<newline>\<newline>body'')) = js ''A''"
proof -
  have h1: "strict_prefix (js ''**A**\<newline>\<newline>bo'') (js ''**A**\<newline>\<newline>body'')"
    by (simp add: js_def strict_prefix_def)
  have h2: "boundaries (js ''**A**\<newline>\<newline>body'') = boundaries (js ''**A**\<newline>\<newline>bo'')" by code_simp
  have h3: "heading_of (last (split_think (js ''**A**\<newline>\<newline>bo''))) (js ''A'') (js ''\<newline>\<newline>bo'')"
    by code_simp
  have v: "fst (parseLatestThinkBlock (js ''**A**\<newline>\<newline>body'')) = js ''A''" by code_simp
  from think_block_heading_stable[OF h1 h2] h3
  have "fst (parseLatestThinkBlock (js ''**A**\<newline>\<newline>bo'')) = fst (parseLatestThinkBlock (js ''**A**\<newline>\<newline>body''))"
    by blast
  with h1 h2 h3 v show ?thesis by simp
qed

section \<open>Properties of \<open>extractArticleId\<close>\<close>

lemma dec_digits_ne: "dec_digits n \<noteq> []"
  by (subst dec_digits.simps) simp


text \<open>
  Claim C10.  \<open>extractArticleId\<close> is total: whatever the URL parser does with the string
  (\<open>None\<close> is its exception, caught by the \<open>try\<close>), and for every platform string, the
  result is a non-empty identifier.  When the URL does not parse, when the platform is
  neither \<open>geeknews\<close> nor \<open>medium\<close>, and whenever the \<open>try\<close> block returns nothing, the
  result is \<open>article_\<close> followed by the decimal digits of the absolute value of the
  32-bit hash of the URL modulo \<open>100000000\<close>.  It is a function of its inputs: equal
  inputs give equal identifiers.
\<close>

theorem extractArticleId_total:
  "extractArticleId url_parse url platform \<noteq> []
   \<and> (url_parse url = None \<or> (platform \<noteq> js ''geeknews'' \<and> platform \<noteq> js ''medium'')
        \<longrightarrow> extractArticleId url_parse url platform
              = js ''article_'' @ dec_digits (nat \<bar>hashCode url\<bar> mod 100000000))
   \<and> (platform_id url_parse url platform = None
        \<longrightarrow> extractArticleId url_parse url platform
              = js ''article_'' @ dec_digits (nat \<bar>hashCode url\<bar> mod 100000000))
   \<and> nat \<bar>hashCode url\<bar> mod 100000000 < 100000000
   \<and> (url = url' \<and> platform = platform'
        \<longrightarrow> extractArticleId url_parse url platform = extractArticleId url_parse url' platform')"
proof -
  have pid: "\<And>aid. platform_id url_parse url platform = Some aid \<Longrightarrow> aid \<noteq> []"
    by (auto simp: platform_id_def Let_def js_def split: option.splits if_splits)
  have a: "extractArticleId url_parse url platform \<noteq> []"
    using pid by (cases "platform_id url_parse url platform") (auto simp: extractArticleId_def js_def)
  have b: "url_parse url = None \<or> (platform \<noteq> js ''geeknews'' \<and> platform \<noteq> js ''medium'')
        \<longrightarrow> platform_id url_parse url platform = None"
    by (auto simp: platform_id_def split: option.splits)
  have c: "platform_id url_parse url platform = None
        \<longrightarrow> extractArticleId url_parse url platform
              = js ''article_'' @ dec_digits (nat \<bar>hashCode url\<bar> mod 100000000)"
    by (simp add: extractArticleId_def)
  from a b c show ?thesis by simp
qed

theorem extractArticleId_total_witness:
  "(\<lambda>u. None :: parsed_url option) (js ''not a url'') = None
   \<and> extractArticleId (\<lambda>u. None) (js ''not a url'') (js ''medium'') = js ''article_95080797''
   \<and> extractArticleId (\<lambda>u. None) (js ''not a url'') (js ''medium'') \<noteq> []"
proof -
  have h: "hashCode (js ''not a url'') = -195080797" by code_simp
  have d: "dec_digits 95080797 = js ''95080797''" by (simp add: dec_digits.simps js_def)
  from extractArticleId_total[of "\<lambda>u. None" "js ''not a url''" "js ''medium''" "js ''not a url''" "js ''medium''"]
  have "extractArticleId (\<lambda>u. None) (js ''not a url'') (js ''medium'')
          = js ''article_'' @ dec_digits (nat \<bar>hashCode (js ''not a url'')\<bar> mod 100000000)"
    by blast
  then have "extractArticleId (\<lambda>u. None) (js ''not a url'') (js ''medium'') = js ''article_95080797''"
    unfolding h by (simp add: d) (simp add: js_def)
  then show ?thesis by (simp add: js_def)
qed

section \<open>Properties of the speech synthesis engine\<close>

lemma gather_fold:
  assumes "\<forall>c \<in> set cs. snd c = g (fst c)"
  shows "fold (\<lambda>c slots. slots[fst c := Some (snd c)]) cs slots
       = map (\<lambda>i. if i \<in> fst ` set cs then Some (g i) else slots ! i) [0..<length slots]"
  using assms
proof (induction cs arbitrary: slots)
  case Nil
  then show ?case by (simp add: map_nth)
next
  case (Cons c cs)
  then have "fold (\<lambda>c slots. slots[fst c := Some (snd c)]) cs (slots[fst c := Some (snd c)])
       = map (\<lambda>i. if i \<in> fst ` set cs then Some (g i) else (slots[fst c := Some (snd c)]) ! i)
             [0..<length (slots[fst c := Some (snd c)])]"
    by simp
  moreover have "snd c = g (fst c)" using Cons.prems by simp
  ultimately show ?case by (auto simp: nth_list_update)
qed

lemma all_succeeded_map: "all_succeeded (map (\<lambda>a. Some (Some a)) auds) = Some auds"
  by (induction auds) auto

lemma spaced_Cons: "spaced silence (a # r) = a @ concat (map ((@) silence) r)"
  by (induction r arbitrary: a) auto

lemma merge_fold:
  "0 < k \<Longrightarrow>
   fold (\<lambda>ic merged. (if 0 < fst ic then merged @ silence else merged) @ snd ic) (enumerate k chunks) acc
     = acc @ concat (map ((@) silence) chunks)"
  by (induction chunks arbitrary: k acc) auto

lemma merge_audio_chunks_spaced: "merge_audio_chunks chunks silence = spaced silence chunks"
proof (cases chunks)
  case Nil
  then show ?thesis by (simp add: merge_audio_chunks_def)
next
  case (Cons a r)
  then show ?thesis
    using merge_fold[of 1 silence r a] by (simp add: merge_audio_chunks_def spaced_Cons)
qed

text \<open>
  Claim C5.  When every segment's synthesis call completes successfully, in whatever
  order the calls complete, the merged artifact is the segment audios in the original
  segment order with exactly one silence block between consecutive segments and none
  before the first or after the last.
\<close>

theorem merged_artifact_in_segment_order:
  assumes "set completions = set (enumerate 0 (map Some auds))"
  shows "synthesize_speech silence (length auds) completions = Some (spaced silence auds)"
proof -
  have g: "\<forall>c \<in> set completions. snd c = Some (auds ! fst c)"
  proof
    fix c assume "c \<in> set completions"
    then have "c \<in> set (enumerate 0 (map Some auds))" by (simp only: assms)
    then have "fst c < length auds" "map Some auds ! fst c = snd c"
      by (simp_all add: in_set_enumerate_eq)
    then show "snd c = Some (auds ! fst c)" by simp
  qed
  have dom: "\<And>i. i < length auds \<Longrightarrow> i \<in> fst ` set completions"
  proof -
    fix i assume "i < length auds"
    then have "(i, Some (auds ! i)) \<in> set (enumerate 0 (map Some auds))"
      by (simp add: in_set_enumerate_eq)
    then have "(i, Some (auds ! i)) \<in> set completions" by (simp only: assms)
    then show "i \<in> fst ` set completions" by (rule image_eqI[rotated]) simp
  qed
  have m: "map (\<lambda>i. if i \<in> fst ` set completions then Some (Some (auds ! i)) else replicate (length auds) None ! i)
                [0..<length auds] = map (\<lambda>i. Some (Some (auds ! i))) [0..<length auds]"
    by (rule map_cong) (simp_all add: dom)
  have "gather (length auds) completions
          = map (\<lambda>i. if i \<in> fst ` set completions then Some (Some (auds ! i)) else replicate (length auds) None ! i)
                [0..<length auds]"
    unfolding gather_def using gather_fold[OF g, of "replicate (length auds) None"] by simp
  also have "\<dots> = map (\<lambda>i. Some (Some (auds ! i))) [0..<length auds]"
    by (rule m)
  also have "\<dots> = map (\<lambda>a. Some (Some a)) (map ((!) auds) [0..<length auds])"
    by (simp only: map_map comp_def)
  also have "\<dots> = map (\<lambda>a. Some (Some a)) auds"
    by (simp only: map_nth)
  finally have "gather (length auds) completions = map (\<lambda>a. Some (Some a)) auds" .
  then show ?thesis
    by (simp add: synthesize_speech_def all_succeeded_map merge_audio_chunks_spaced)
qed

theorem merged_artifact_in_segment_order_witness:
  "set [(2, Some [3]), (0, Some [1]), (1, Some [2 :: 8 word])] = set (enumerate 0 (map Some [[1], [2], [3]]))
   \<and> synthesize_speech [0, 0] (length [[1], [2], [3 :: 8 word]]) [(2, Some [3]), (0, Some [1]), (1, Some [2])]
       = Some [1, 0, 0, 2, 0, 0, 3]"
proof -
  have h: "set [(2, Some [3]), (0, Some [1]), (1, Some [2 :: 8 word])] = set (enumerate 0 (map Some [[1], [2], [3]]))"
    by auto
  from merged_artifact_in_segment_order[OF h, of "[0, 0]"] h show ?thesis by simp
qed

end
